theory Spec2Isabelle
  imports Complex_Main "HOL-Library.Word" "HOL-Library.Monad_Syntax"
begin

section \<open>The autofocus algorithm of \<^verbatim>\<open>src/ipa/rpi/controller/rpi/af.cpp\<close>\<close>

text \<open>
  A shallow embedding of the class \<^verbatim>\<open>Af\<close>. Conventions:
  \<^item> \<^verbatim>\<open>double\<close> is modelled by \<^typ>\<open>real\<close>: rounding, infinities and NaN are outside
    the model, except for the member \<^verbatim>\<open>last_mean\<close>, the one value the code computes by a
    division that can be 0/0; it is a \<^typ>\<open>real option\<close> with \<open>None\<close> for NaN.
  \<^item> \<^verbatim>\<open>unsigned\<close> and \<^verbatim>\<open>uint32_t\<close> are \<^typ>\<open>32 word\<close>; arithmetic wraps.
  \<^item> \<^verbatim>\<open>int\<close> is \<^typ>\<open>int\<close> with every result checked to fit 32 bits; the
    \<^verbatim>\<open>int64_t\<close> accumulator of \<^verbatim>\<open>getPhase\<close> is a \<^typ>\<open>64 word\<close> read with \<open>sint\<close>.
  \<^item> A function returns \<open>None\<close> where the C++ has no defined result: a vector read or
    written out of bounds, an integer division by zero, a signed overflow, a null
    pointer dereferenced.
  \<^item> A member \<^verbatim>\<open>foo_\<close> is the field \<open>foo\<close> of the record \<open>Af\<close>; fields of the small
    structs carry the struct's initials as a prefix.
\<close>

type_synonym u16 = "16 word"
type_synonym u32 = "32 word"
type_synonym u64 = "64 word"

subsection \<open>Enumerations\<close>

text \<open>
  Modelled from the spec: the enumerations are declared in \<^verbatim>\<open>af_algorithm.h\<close> and
  \<^verbatim>\<open>af.h\<close>, which are not among the sources. The spec lists the ranges as
  Normal, Macro, Full, the speeds as Normal, Fast, and the scan states as Idle, Trigger,
  Pdaf, Coarse, Fine, Settle, in that order; \<^verbatim>\<open>AfRangeMax\<close> and \<^verbatim>\<open>AfSpeedMax\<close> are the
  counts. A C++ enum argument can hold any value of its underlying type, so
  \<^verbatim>\<open>AfRange\<close> and \<^verbatim>\<open>AfSpeed\<close> are numbers here.
\<close>

type_synonym AfRange = nat
type_synonym AfSpeed = nat

definition AfRangeNormal :: AfRange where "AfRangeNormal = 0"
definition AfRangeMacro :: AfRange where "AfRangeMacro = 1"
definition AfRangeFull :: AfRange where "AfRangeFull = 2"
definition AfRangeMax :: AfRange where "AfRangeMax = 3"

definition AfSpeedNormal :: AfSpeed where "AfSpeedNormal = 0"
definition AfSpeedFast :: AfSpeed where "AfSpeedFast = 1"
definition AfSpeedMax :: AfSpeed where "AfSpeedMax = 2"

datatype AfMode = AfModeManual | AfModeAuto | AfModeContinuous

datatype AfPause = AfPauseImmediate | AfPauseDeferred | AfPauseResume

datatype AfState = AfStateIdle | AfStateScanning | AfStateFocused | AfStateFailed

datatype AfPauseState = Running | Pausing | Paused

datatype ScanState = Idle | Trigger | Pdaf | Coarse | Fine | Settle

text \<open>The position of a scan state in its enumeration, for \<^verbatim>\<open><\<close> and \<^verbatim>\<open>>=\<close>.\<close>

fun scanOrd :: "ScanState \<Rightarrow> nat" where
  "scanOrd Idle = 0"
| "scanOrd Trigger = 1"
| "scanOrd Pdaf = 2"
| "scanOrd Coarse = 3"
| "scanOrd Fine = 4"
| "scanOrd Settle = 5"

subsection \<open>Tuning parameters\<close>

record RangeDependentParams =
  focusMin :: real
  focusMax :: real
  focusDefault :: real

record SpeedDependentParams =
  stepCoarse :: real
  stepFine :: real
  contrastRatio :: real
  pdafGain :: real
  pdafSquelch :: real
  maxSlew :: real
  pdafFrames :: u32
  dropoutFrames :: u32
  stepFrames :: u32

text \<open>
  Modelled from the spec: the class \<^verbatim>\<open>Pwl\<close> of the lens map is not among the sources.
  The spec gives it as a piecewise-linear map through anchor points, with \<open>eval\<close> the
  rounded linear interpolation clipped to the end points and \<open>domain().clip\<close> the clamp
  to the first and last abscissa.
\<close>

type_synonym Pwl = "(real \<times> real) list"

definition pwlClip :: "Pwl \<Rightarrow> real \<Rightarrow> real option" where
  "pwlClip m x =
     (if m = [] then None else Some (max (fst (hd m)) (min (fst (last m)) x)))"

fun pwlInterp :: "Pwl \<Rightarrow> real \<Rightarrow> real" where
  "pwlInterp [] x = 0"
| "pwlInterp [p] x = snd p"
| "pwlInterp (p # q # m) x =
     (if x \<le> fst p then snd p
      else if x \<le> fst q then snd p + (x - fst p) * (snd q - snd p) / (fst q - fst p)
      else pwlInterp (q # m) x)"

definition pwlEval :: "Pwl \<Rightarrow> real \<Rightarrow> int option" where
  "pwlEval m x = (if m = [] then None else Some (round (pwlInterp m x)))"

record CfgParams =
  ranges :: "AfRange \<Rightarrow> RangeDependentParams"
  speeds :: "AfSpeed \<Rightarrow> SpeedDependentParams"
  confEpsilon :: u32
  confThresh :: u32
  confClip :: u32
  skipFrames :: u32
  lensMap :: Pwl

definition RangeDependentParams_default :: RangeDependentParams where
  "RangeDependentParams_default = \<lparr>focusMin = 0.0, focusMax = 12.0, focusDefault = 1.0\<rparr>"

definition SpeedDependentParams_default :: SpeedDependentParams where
  "SpeedDependentParams_default =
     \<lparr>stepCoarse = 1.0, stepFine = 0.25, contrastRatio = 0.75, pdafGain = - 0.02,
      pdafSquelch = 0.125, maxSlew = 2.0, pdafFrames = 20, dropoutFrames = 6,
      stepFrames = 4\<rparr>"

definition CfgParams_default :: CfgParams where
  "CfgParams_default =
     \<lparr>ranges = (\<lambda>_. RangeDependentParams_default),
      speeds = (\<lambda>_. SpeedDependentParams_default),
      confEpsilon = 8, confThresh = 16, confClip = 512, skipFrames = 5, lensMap = []\<rparr>"

text \<open>\<^verbatim>\<open>CfgParams::initialise\<close>: the default mapping from dioptres to hardware setting.\<close>

definition CfgParams_initialise :: "CfgParams \<Rightarrow> CfgParams" where
  "CfgParams_initialise c =
     (if lensMap c = [] then c\<lparr>lensMap := lensMap c @ [(0.0, 445.0)] @ [(15.0, 925.0)]\<rparr>
      else c)"

subsection \<open>Statistics and metadata\<close>

text \<open>
  Modelled from the spec: \<^verbatim>\<open>libcamera::Rectangle\<close>, \<^verbatim>\<open>RegionStats\<close>, \<^verbatim>\<open>PdafData\<close>,
  \<^verbatim>\<open>CameraMode\<close>, \<^verbatim>\<open>AgcPrepareStatus\<close> and the metadata bag are declared in headers
  that are not among the sources. A rectangle has a signed origin and an unsigned size (the
  casts in \<^verbatim>\<open>switchMode\<close> and \<^verbatim>\<open>computeWeights\<close>); a PDAF cell is \<open>(phase:i32, conf:u32)\<close>;
  a region grid has its dimensions and its cells in row-major order, \<open>numRegions\<close> being the
  number of cells; a weight cell is 16 bits wide (the weights are scaled to sum to less
  than \<open>1<<16\<close>).
\<close>

record Rectangle =
  r_x :: int
  r_y :: int
  r_width :: u32
  r_height :: u32

record RegionWeights =
  wg_rows :: u32
  wg_cols :: u32
  wg_sum :: u32
  wg_w :: "u16 list"

record PdafData =
  pd_conf :: u32
  pd_phase :: u32

record 'a RegionStats =
  rs_width :: u32
  rs_height :: u32
  rs_cells :: "'a list"

type_synonym PdafRegions = "PdafData RegionStats"
type_synonym FocusRegions = "u64 RegionStats"

definition numRegions :: "'a RegionStats \<Rightarrow> nat" where
  "numRegions rs = length (rs_cells rs)"

record AwbRegion =
  awb_counted :: u32
  awb_gSum :: u64

record Statistics =
  focusRegions :: FocusRegions
  awbRegions :: "AwbRegion list"

record Metadata =
  md_pdaf_regions :: "PdafRegions option"
  md_agc_locked :: "int option"

record CameraMode =
  cm_width :: u32
  cm_height :: u32
  cm_cropX :: real
  cm_cropY :: real
  cm_scaleX :: real
  cm_scaleY :: real

record AfStatus =
  st_state :: AfState
  st_pauseState :: AfPauseState
  st_lensSetting :: "int option"

record ScanRecord =
  sr_focus :: real
  sr_contrast :: real
  sr_phase :: real
  sr_conf :: real

subsection \<open>The state of the algorithm\<close>

record Af =
  cfg :: CfgParams
  rangeSel :: AfRange
  speed :: AfSpeed
  mode :: AfMode
  pauseFlag :: bool
  statsRegion :: Rectangle
  windows :: "Rectangle list"
  useWindows :: bool
  phaseWeights :: RegionWeights
  contrastWeights :: RegionWeights
  scanState :: ScanState
  initted :: bool
  ftarget :: real
  fsmooth :: real
  prevContrast :: real
  skipCount :: u32
  stepCount :: u32
  dropCount :: u32
  scanMaxContrast :: real
  scanMinContrast :: real
  scanMaxIndex :: u32
  scanData :: "ScanRecord list"
  reportState :: AfState
  isPdafEnabled :: bool
  imageMetadata :: "Metadata option"
  stats :: "Statistics option"
  last_mean :: "real option"
  trigger_when_stable :: bool
  last_agc_status :: bool
  stable_frame_count :: u32

subsection \<open>Undefined behaviour made explicit\<close>

text \<open>A vector read, and a vector cell rewritten in place, with the bounds checked.\<close>

definition vecAt :: "'a list \<Rightarrow> nat \<Rightarrow> 'a option" where
  "vecAt xs i = (if i < length xs then Some (xs ! i) else None)"

definition vecUpd :: "'a list \<Rightarrow> nat \<Rightarrow> ('a \<Rightarrow> 'a) \<Rightarrow> 'a list option" where
  "vecUpd xs i f = (if i < length xs then Some (xs[i := f (xs ! i)]) else None)"

text \<open>An \<^verbatim>\<open>int\<close> result: defined when it fits 32 bits.\<close>

definition in_int :: "int \<Rightarrow> int option" where
  "in_int v = (if - (2 ^ 31) \<le> v \<and> v < 2 ^ 31 then Some v else None)"

text \<open>Unsigned division traps on a zero divisor.\<close>

definition udiv :: "u32 \<Rightarrow> u32 \<Rightarrow> u32 option" where
  "udiv a b = (if b = 0 then None else Some (a div b))"

text \<open>The casts \<^verbatim>\<open>(int)\<close> and \<^verbatim>\<open>(unsigned)\<close> of a double: truncation, defined in range.\<close>

definition trunc :: "real \<Rightarrow> int" where
  "trunc x = (if 0 \<le> x then \<lfloor>x\<rfloor> else \<lceil>x\<rceil>)"

definition toInt :: "real \<Rightarrow> int option" where
  "toInt x = in_int (trunc x)"

definition toUnsigned :: "real \<Rightarrow> u32 option" where
  "toUnsigned x = (if 0 \<le> trunc x \<and> trunc x < 2 ^ 32 then Some (word_of_int (trunc x)) else None)"

text \<open>\<^verbatim>\<open>std::clamp(v, lo, hi)\<close>; the standard requires \<open>lo \<le> hi\<close>.\<close>

definition clamp :: "real \<Rightarrow> real \<Rightarrow> real \<Rightarrow> real" where
  "clamp v lo hi = (if v < lo then lo else if hi < v then hi else v)"

text \<open>A \<^verbatim>\<open>for\<close> loop over the values \<open>xs\<close> whose body may be undefined.\<close>

fun foldM :: "('a \<Rightarrow> 's \<Rightarrow> 's option) \<Rightarrow> 'a list \<Rightarrow> 's \<Rightarrow> 's option" where
  "foldM f [] s = Some s"
| "foldM f (x # xs) s = (case f x s of None \<Rightarrow> None | Some s' \<Rightarrow> foldM f xs s')"

subsection \<open>Region weights\<close>

definition MaxWindows :: u32 where
  "MaxWindows = 10"

text \<open>
  The extent of grid row (or column) \<open>k\<close> clipped to a window: \<^verbatim>\<open>y0\<close> and \<^verbatim>\<open>y1\<close>
  (\<^verbatim>\<open>x0\<close> and \<^verbatim>\<open>x1\<close>) of \<^verbatim>\<open>computeWeights\<close>.
\<close>

definition cellSpan :: "int \<Rightarrow> u32 \<Rightarrow> u32 \<Rightarrow> int \<Rightarrow> u32 \<Rightarrow> (int \<times> int) option" where
  "cellSpan origin cell k worigin wsize = do {
     lo \<leftarrow> in_int (origin + sint (cell * k));
     hi \<leftarrow> in_int (origin + sint (cell * (k + 1)));
     whi \<leftarrow> in_int (worigin + sint wsize);
     Some (max lo worigin, min hi whi)
   }"

text \<open>The body of the innermost loop over the columns \<open>c\<close>, for window \<open>win\<close> and row \<open>r\<close>.\<close>

definition windowCell ::
  "Rectangle \<Rightarrow> u32 \<Rightarrow> u32 \<Rightarrow> u32 \<Rightarrow> u32 \<Rightarrow> Rectangle \<Rightarrow> u32 \<Rightarrow> int \<Rightarrow> nat
     \<Rightarrow> RegionWeights \<Rightarrow> RegionWeights option" where
  "windowCell region cols maxCellWeight cellW cellA win r y1 c wgts = do {
     (x0, x1) \<leftarrow> cellSpan (r_x region) cellW (of_nat c) (r_x win) (r_width win);
     if x0 \<ge> x1 then Some wgts
     else do {
       dx \<leftarrow> in_int (x1 - x0);
       area \<leftarrow> in_int (y1 * dx);
       a \<leftarrow> udiv (maxCellWeight * word_of_int area + cellA - 1) cellA;
       ws \<leftarrow> vecUpd (wg_w wgts) (unat (r * cols + of_nat c)) (\<lambda>v. v + ucast a);
       Some (wgts\<lparr>wg_w := ws, wg_sum := wg_sum wgts + a\<rparr>)
     }
   }"

text \<open>The body of the loop over the rows \<open>r\<close>, for window \<open>win\<close>.\<close>

definition windowRow ::
  "Rectangle \<Rightarrow> u32 \<Rightarrow> u32 \<Rightarrow> u32 \<Rightarrow> u32 \<Rightarrow> u32 \<Rightarrow> Rectangle \<Rightarrow> nat
     \<Rightarrow> RegionWeights \<Rightarrow> RegionWeights option" where
  "windowRow region cols maxCellWeight cellH cellW cellA win r wgts = do {
     (y0, y1) \<leftarrow> cellSpan (r_y region) cellH (of_nat r) (r_y win) (r_height win);
     if y0 \<ge> y1 then Some wgts
     else do {
       dy \<leftarrow> in_int (y1 - y0);
       foldM (windowCell region cols maxCellWeight cellW cellA win (of_nat r) dy)
         [0 ..< unat cols] wgts
     }
   }"

text \<open>The first half of \<^verbatim>\<open>computeWeights\<close>: the grid cleared, then the windows merged.\<close>

definition windowWeights ::
  "bool \<Rightarrow> Rectangle \<Rightarrow> Rectangle list \<Rightarrow> u32 \<Rightarrow> u32 \<Rightarrow> RegionWeights option" where
  "windowWeights useWin region wins rows cols =
     (let wgts = \<lparr>wg_rows = rows, wg_cols = cols, wg_sum = 0,
                  wg_w = replicate (unat (rows * cols)) 0\<rparr>
      in if rows > 0 \<and> cols > 0 \<and> useWin \<and> r_height region \<ge> rows \<and> r_width region \<ge> cols
         then do {
           maxCellWeight \<leftarrow> udiv 46080 (MaxWindows * rows * cols);
           cellH \<leftarrow> udiv (r_height region) rows;
           cellW \<leftarrow> udiv (r_width region) cols;
           foldM (\<lambda>win. foldM (windowRow region cols maxCellWeight cellH cellW (cellH * cellW) win)
                          [0 ..< unat rows])
             wins wgts
         }
         else Some wgts)"

text \<open>
  The second half: the default AF window, the middle 1/2 width of the middle 1/3 height.
\<close>

definition centralCell :: "u32 \<Rightarrow> nat \<Rightarrow> nat \<Rightarrow> RegionWeights \<Rightarrow> RegionWeights option" where
  "centralCell cols r c wgts = do {
     ws \<leftarrow> vecUpd (wg_w wgts) (unat (of_nat r * cols + of_nat c)) (\<lambda>_. 1);
     Some (wgts\<lparr>wg_w := ws, wg_sum := wg_sum wgts + 1\<rparr>)
   }"

definition centralWindow :: "u32 \<Rightarrow> u32 \<Rightarrow> RegionWeights \<Rightarrow> RegionWeights option" where
  "centralWindow rows cols wgts =
     foldM (\<lambda>r. foldM (centralCell cols r) [unat (cols div 4) ..< unat (cols - cols div 4)])
       [unat (rows div 3) ..< unat (rows - rows div 3)] wgts"

definition computeWeights ::
  "bool \<Rightarrow> Rectangle \<Rightarrow> Rectangle list \<Rightarrow> u32 \<Rightarrow> u32 \<Rightarrow> RegionWeights option" where
  "computeWeights useWin region wins rows cols = do {
     wgts \<leftarrow> windowWeights useWin region wins rows cols;
     if wg_sum wgts = 0 then centralWindow rows cols wgts else Some wgts
   }"

definition invalidateWeights :: "Af \<Rightarrow> Af" where
  "invalidateWeights s =
     s\<lparr>phaseWeights := (phaseWeights s)\<lparr>wg_sum := 0\<rparr>,
       contrastWeights := (contrastWeights s)\<lparr>wg_sum := 0\<rparr>\<rparr>"

subsection \<open>Phase and contrast fusion\<close>

text \<open>
  The body of the loop of \<^verbatim>\<open>getPhase\<close> over the regions \<open>i\<close>; the state of the loop is
  \<^verbatim>\<open>(sumWc, sumWcp)\<close>, a \<^verbatim>\<open>uint32_t\<close> and an \<^verbatim>\<open>int64_t\<close>.
\<close>

definition phaseCell ::
  "CfgParams \<Rightarrow> RegionWeights \<Rightarrow> PdafRegions \<Rightarrow> nat \<Rightarrow> u32 \<times> u64 \<Rightarrow> (u32 \<times> u64) option" where
  "phaseCell c wgts regions i acc = do {
     w16 \<leftarrow> vecAt (wg_w wgts) i;
     let w = (ucast w16 :: u32);
     if w \<noteq> 0 then do {
       data \<leftarrow> vecAt (rs_cells regions) i;
       let c0 = pd_conf data;
       if c0 \<ge> confThresh c then
         (let c1 = (if c0 > confClip c then confClip c else c0) - drop_bit 2 (confThresh c);
              c2 = c1 - drop_bit 2 (confThresh c)
          in Some (fst acc + w * c1,
                   snd acc + (ucast (w * c2) :: u64) * (scast (pd_phase data) :: u64)))
       else Some acc
     }
     else Some acc
   }"

text \<open>
  The check that opens \<^verbatim>\<open>getPhase\<close> and \<^verbatim>\<open>getContrast\<close>: the weights are computed
  again when the grid has another size or the weights were invalidated.
\<close>

definition weightsFor :: "RegionWeights \<Rightarrow> 'a RegionStats \<Rightarrow> Af \<Rightarrow> RegionWeights option" where
  "weightsFor wgts regions s =
     (if rs_height regions \<noteq> wg_rows wgts \<or> rs_width regions \<noteq> wg_cols wgts \<or> wg_sum wgts = 0
      then computeWeights (useWindows s) (statsRegion s) (windows s)
             (rs_height regions) (rs_width regions)
      else Some wgts)"

definition getPhase :: "PdafRegions \<Rightarrow> Af \<Rightarrow> ((bool \<times> real \<times> real) \<times> Af) option" where
  "getPhase regions s = do {
     wgts \<leftarrow> weightsFor (phaseWeights s) regions s;
     (sumWc, sumWcp) \<leftarrow> foldM (phaseCell (cfg s) wgts regions) [0 ..< numRegions regions] (0, 0);
     Some (if 0 < wg_sum wgts \<and> wg_sum wgts \<le> sumWc
           then (True, real_of_int (sint sumWcp) / real (unat sumWc),
                 real (unat sumWc) / real (unat (wg_sum wgts)))
           else (False, 0.0, 0.0),
           s\<lparr>phaseWeights := wgts\<rparr>)
   }"

definition contrastCell ::
  "RegionWeights \<Rightarrow> FocusRegions \<Rightarrow> nat \<Rightarrow> u64 \<Rightarrow> u64 option" where
  "contrastCell wgts focusStats i sumWc = do {
     w16 \<leftarrow> vecAt (wg_w wgts) i;
     v \<leftarrow> vecAt (rs_cells focusStats) i;
     Some (sumWc + ucast w16 * v)
   }"

definition getContrast :: "FocusRegions \<Rightarrow> Af \<Rightarrow> (real \<times> Af) option" where
  "getContrast focusStats s = do {
     wgts \<leftarrow> weightsFor (contrastWeights s) focusStats s;
     sumWc \<leftarrow> foldM (contrastCell wgts focusStats) [0 ..< numRegions focusStats] 0;
     Some (if wg_sum wgts > 0 then real (unat sumWc) / real (unat (wg_sum wgts)) else 0.0,
           s\<lparr>contrastWeights := wgts\<rparr>)
   }"

subsection \<open>PDAF closed-loop control\<close>

definition doPDAF :: "real \<Rightarrow> real \<Rightarrow> Af \<Rightarrow> Af" where
  "doPDAF phase0 conf s0 =
     (let sp = speeds (cfg s0) (speed s0);
          rg = ranges (cfg s0) (rangeSel s0);
          phase1 = phase0 * pdafGain sp;
          (phase2, s1) =
            (if mode s0 = AfModeContinuous then
               (let p = phase1 * (conf / (conf + real (unat (confEpsilon (cfg s0)))))
                in (if \<bar>p\<bar> < pdafSquelch sp
                    then (let a = p / pdafSquelch sp in p * (a * a)) else p, s0))
             else if stepCount s0 \<ge> stepFrames sp then
               (phase1, if \<bar>phase1\<bar> < pdafSquelch sp then s0\<lparr>stepCount := stepFrames sp\<rparr> else s0)
             else (phase1 * real (unat (stepCount s0 div stepFrames sp)), s0));
          (phase3, rep) =
            (if phase2 < - maxSlew sp then
               (- maxSlew sp, if ftarget s1 \<le> focusMin rg then AfStateFailed else AfStateScanning)
             else if phase2 > maxSlew sp then
               (maxSlew sp, if ftarget s1 \<ge> focusMax rg then AfStateFailed else AfStateScanning)
             else (phase2, AfStateFocused))
      in s1\<lparr>reportState := rep, ftarget := fsmooth s1 + phase3\<rparr>)"

subsection \<open>The programmed scan\<close>

definition earlyTerminationByPhase :: "real \<Rightarrow> Af \<Rightarrow> bool \<times> Af" where
  "earlyTerminationByPhase phase s =
     (if length (scanData s) > 0 \<and>
         sr_conf (scanData s ! (length (scanData s) - 1)) \<ge> real (unat (confEpsilon (cfg s)))
      then
        (let oldFocus = sr_focus (scanData s ! (length (scanData s) - 1));
             oldPhase = sr_phase (scanData s ! (length (scanData s) - 1))
         in if (ftarget s - oldFocus) * (phase - oldPhase) > 0.0 then
              (let param = phase / (phase - oldPhase)
               in if - 3.0 \<le> param \<and> param \<le> 3.5
                  then (True, s\<lparr>ftarget := ftarget s + param * (oldFocus - ftarget s)\<rparr>)
                  else (False, s))
            else (False, s))
      else (False, s))"

definition findPeak :: "u32 \<Rightarrow> Af \<Rightarrow> real option" where
  "findPeak i s = do {
     cur \<leftarrow> vecAt (scanData s) (unat i);
     let f = sr_focus cur;
     if i > 0 \<and> unat (i + 1) < length (scanData s) then do {
       lo \<leftarrow> vecAt (scanData s) (unat (i - 1));
       hi \<leftarrow> vecAt (scanData s) (unat (i + 1));
       let dropLo = sr_contrast cur - sr_contrast lo;
       let dropHi = sr_contrast cur - sr_contrast hi;
       if 0.0 \<le> dropLo \<and> dropLo < dropHi then
         (let param = 0.3125 * (1.0 - dropLo / dropHi) * (1.6 - dropLo / dropHi)
          in Some (f + param * (sr_focus lo - f)))
       else if 0.0 \<le> dropHi \<and> dropHi < dropLo then
         (let param = 0.3125 * (1.0 - dropHi / dropLo) * (1.6 - dropHi / dropLo)
          in Some (f + param * (sr_focus hi - f)))
       else Some f
     }
     else Some f
   }"

text \<open>The first statements of \<^verbatim>\<open>doScan\<close>: the lens position, contrast and phase are recorded.\<close>

definition doScanRecord :: "real \<Rightarrow> real \<Rightarrow> real \<Rightarrow> Af \<Rightarrow> Af" where
  "doScanRecord contrast phase conf s0 =
     (let s1 = (if scanData s0 = [] \<or> contrast > scanMaxContrast s0
                then s0\<lparr>scanMaxContrast := contrast,
                        scanMaxIndex := of_nat (length (scanData s0))\<rparr>
                else s0);
          s2 = (if contrast < scanMinContrast s1 then s1\<lparr>scanMinContrast := contrast\<rparr> else s1)
      in s2\<lparr>scanData := scanData s2 @
                [\<lparr>sr_focus = ftarget s2, sr_contrast = contrast, sr_phase = phase,
                  sr_conf = conf\<rparr>]\<rparr>)"

definition doScan :: "real \<Rightarrow> real \<Rightarrow> real \<Rightarrow> Af \<Rightarrow> Af option" where
  "doScan contrast phase conf s0 =
     (let s3 = doScanRecord contrast phase conf s0;
          sp = speeds (cfg s3) (speed s3);
          rg = ranges (cfg s3) (rangeSel s3)
      in do {
        s4 \<leftarrow>
          (if scanState s3 = Coarse then
             (if ftarget s3 \<ge> focusMax rg \<or> contrast < contrastRatio sp * scanMaxContrast s3
              then do {
                peak \<leftarrow> findPeak (scanMaxIndex s3) s3;
                Some (s3\<lparr>ftarget := min (ftarget s3) (peak + 2.0 * stepFine sp),
                         scanState := Fine, scanData := []\<rparr>)
              }
              else Some (s3\<lparr>ftarget := ftarget s3 + stepCoarse sp\<rparr>))
           else
             (if ftarget s3 \<le> focusMin rg \<or> length (scanData s3) \<ge> 5 \<or>
                 contrast < contrastRatio sp * scanMaxContrast s3
              then do {
                peak \<leftarrow> findPeak (scanMaxIndex s3) s3;
                Some (s3\<lparr>ftarget := peak, scanState := Settle\<rparr>)
              }
              else Some (s3\<lparr>ftarget := ftarget s3 - stepFine sp\<rparr>)));
        Some (s4\<lparr>stepCount := (if ftarget s4 = fsmooth s4 then 0 else stepFrames sp)\<rparr>)
      })"

subsection \<open>Lens position and scan start\<close>

definition updateLensPosition :: "Af \<Rightarrow> Af" where
  "updateLensPosition s0 =
     (let rg = ranges (cfg s0) (rangeSel s0);
          sp = speeds (cfg s0) (speed s0);
          s1 = (if scanOrd (scanState s0) \<ge> scanOrd Pdaf
                then s0\<lparr>ftarget := clamp (ftarget s0) (focusMin rg) (focusMax rg)\<rparr>
                else s0)
      in if initted s1 then
           s1\<lparr>fsmooth := clamp (ftarget s1) (fsmooth s1 - maxSlew sp) (fsmooth s1 + maxSlew sp)\<rparr>
         else
           s1\<lparr>fsmooth := ftarget s1, initted := True, skipCount := skipFrames (cfg s1)\<rparr>)"

definition startProgrammedScan :: "Af \<Rightarrow> Af" where
  "startProgrammedScan s0 =
     (let s1 = updateLensPosition (s0\<lparr>ftarget := focusMin (ranges (cfg s0) (rangeSel s0))\<rparr>)
      in s1\<lparr>scanState := Coarse, scanMaxContrast := 0.0, scanMinContrast := 1000000000,
            scanMaxIndex := 0, scanData := [],
            stepCount := stepFrames (speeds (cfg s1) (speed s1)),
            reportState := AfStateScanning, stable_frame_count := 0,
            last_mean := Some 0, trigger_when_stable := False, last_agc_status := False\<rparr>)"

definition startAF :: "Af \<Rightarrow> Af" where
  "startAF s0 =
     (let sp = speeds (cfg s0) (speed s0)
      in if dropoutFrames sp > 0 \<and> (mode s0 = AfModeContinuous \<or> pdafFrames sp > 0) then
           (let s1 = (if \<not> initted s0
                      then updateLensPosition
                             (s0\<lparr>ftarget := focusDefault (ranges (cfg s0) (rangeSel s0))\<rparr>)
                      else s0)
            in s1\<lparr>stepCount := (if mode s1 = AfModeContinuous then 0 else pdafFrames sp),
                  scanState := Pdaf, scanData := [], dropCount := 0,
                  reportState := AfStateScanning\<rparr>)
         else startProgrammedScan s0)"

definition goIdle :: "Af \<Rightarrow> Af" where
  "goIdle s = s\<lparr>scanState := Idle, reportState := AfStateIdle, scanData := []\<rparr>"

subsection \<open>The per-frame step\<close>

definition generate_stats :: "AwbRegion list \<Rightarrow> real \<Rightarrow> real \<Rightarrow> real list \<Rightarrow> real list" where
  "generate_stats rgby min_pixels min_G zones0 =
     fold (\<lambda>iter zones.
             (let counted = real (unat (awb_counted iter))
              in if counted \<ge> min_pixels then
                   (let zone = real (unat (awb_gSum iter)) / counted
                    in if zone \<ge> min_G then zones @ [zone] else zones)
                 else zones))
       rgby zones0"

text \<open>
  The first branch of \<^verbatim>\<open>doAF\<close>: a scan is started on a change of scene brightness or
  when the AGC locks. \<open>mean\<close> is 0/0, a NaN, when no zone qualifies; a comparison with a
  NaN is false and \<^verbatim>\<open>!=\<close> is true.
\<close>

definition sceneMonitor :: "Af \<Rightarrow> Af option" where
  "sceneMonitor s0 = do {
     md \<leftarrow> imageMetadata s0;
     let locked = (case md_agc_locked md of Some l \<Rightarrow> l | None \<Rightarrow> 0);
     st \<leftarrow> stats s0;
     let zones = generate_stats (awbRegions st) 16 32 [];
     let sum = fold (\<lambda>zone acc. acc + zone) zones 0;
     let mean = (if zones = [] then None else Some (sum / real (length zones)));
     let s3 =
       (if locked \<noteq> 0 \<and> last_mean s0 \<noteq> Some 0 then
          (let mean_diff = (case (mean, last_mean s0) of
                              (Some m, Some l) \<Rightarrow> Some \<bar>m - l\<bar> | _ \<Rightarrow> None);
               s1 = (if (case mean_diff of Some d \<Rightarrow> d > 1000 | None \<Rightarrow> False)
                     then s0\<lparr>trigger_when_stable := True\<rparr> else s0)
           in if trigger_when_stable s1 \<and> (case mean_diff of Some d \<Rightarrow> d < 400 | None \<Rightarrow> False)
              then startProgrammedScan s1
              else if \<not> last_agc_status s1 \<and> locked \<noteq> 0 then startProgrammedScan s1
              else s1)
        else s0);
     Some (s3\<lparr>last_agc_status := (locked \<noteq> 0), last_mean := mean\<rparr>)
   }"

text \<open>The branch of \<^verbatim>\<open>doAF\<close> for the scan state \<^verbatim>\<open>Pdaf\<close>: closed-loop control, or a dropout.\<close>

definition doAF_pdaf :: "real \<Rightarrow> real \<Rightarrow> Af \<Rightarrow> Af" where
  "doAF_pdaf phase conf s0 =
     (if conf > (if dropCount s0 \<noteq> 0 then 1.0 else 0.25) * real (unat (confEpsilon (cfg s0)))
      then
        (let s1 = doPDAF phase conf s0;
             s2 = (if stepCount s1 > 0 then s1\<lparr>stepCount := stepCount s1 - 1\<rparr>
                   else if mode s1 \<noteq> AfModeContinuous then s1\<lparr>scanState := Idle\<rparr>
                   else s1)
         in s2\<lparr>dropCount := 0\<rparr>)
      else
        (let s1 = s0\<lparr>dropCount := dropCount s0 + 1\<rparr>
         in if dropCount s1 = dropoutFrames (speeds (cfg s1) (speed s1))
            then startProgrammedScan s1 else s1))"

text \<open>The end of the \<^verbatim>\<open>Settle\<close> state: the verdict of the scan is published.\<close>

definition doAF_settle :: "Af \<Rightarrow> Af" where
  "doAF_settle s0 =
     (let sp = speeds (cfg s0) (speed s0);
          s1 = s0\<lparr>reportState :=
                   (if prevContrast s0 \<ge> contrastRatio sp * scanMaxContrast s0 \<and>
                       scanMinContrast s0 \<le> contrastRatio sp * scanMaxContrast s0
                    then AfStateFocused else AfStateFailed)\<rparr>;
          s2 = s1\<lparr>scanState :=
                   (if mode s1 = AfModeContinuous \<and> \<not> pauseFlag s1 \<and>
                       dropoutFrames sp > 0 \<and> isPdafEnabled s1
                    then Pdaf else Idle)\<rparr>
      in s2\<lparr>scanData := [], last_mean := Some 0\<rparr>)"

text \<open>The branch of \<^verbatim>\<open>doAF\<close> for a scanning sequence whose lens has reached its target.\<close>

definition doAF_scan :: "real \<Rightarrow> real \<Rightarrow> real \<Rightarrow> Af \<Rightarrow> Af option" where
  "doAF_scan contrast phase conf s0 =
     (if stepCount s0 > 0 then Some (s0\<lparr>stepCount := stepCount s0 - 1\<rparr>)
      else if scanState s0 = Settle then Some (doAF_settle s0)
      else if conf \<ge> real (unat (confEpsilon (cfg s0))) \<and>
              fst (earlyTerminationByPhase phase s0) then
        (let s1 = snd (earlyTerminationByPhase phase s0)
         in Some (s1\<lparr>scanState := Settle,
                     stepCount := (if mode s1 = AfModeContinuous then 0
                                   else stepFrames (speeds (cfg s1) (speed s1)))\<rparr>))
      else doScan contrast phase conf s0)"

definition doAF :: "real \<Rightarrow> real \<Rightarrow> real \<Rightarrow> Af \<Rightarrow> Af option" where
  "doAF contrast phase conf s0 =
     (if skipCount s0 > 0 then Some (s0\<lparr>skipCount := skipCount s0 - 1\<rparr>)
      else if mode s0 = AfModeContinuous \<and> \<not> isPdafEnabled s0 \<and> scanState s0 = Idle then
        sceneMonitor s0
      else if scanState s0 = Pdaf then Some (doAF_pdaf phase conf s0)
      else if scanOrd (scanState s0) \<ge> scanOrd Coarse \<and> fsmooth s0 = ftarget s0 then
        doAF_scan contrast phase conf s0
      else Some s0)"

text \<open>The block of \<^verbatim>\<open>prepare\<close> under \<^verbatim>\<open>if (initted_)\<close>: PDAF is read and the core is run.\<close>

definition prepareAF :: "Metadata \<Rightarrow> Af \<Rightarrow> Af option" where
  "prepareAF md s1 = do {
     let s2 = s1\<lparr>imageMetadata := Some md\<rparr>;
     ((phase, conf), s3) \<leftarrow>
       (case md_pdaf_regions md of
          Some regions \<Rightarrow> do {
            (res, t) \<leftarrow> getPhase regions s2;
            Some ((fst (snd res), snd (snd res)), t\<lparr>isPdafEnabled := True\<rparr>)
          }
        | None \<Rightarrow> Some ((0.0, 0.0), s2));
     s4 \<leftarrow> doAF (prevContrast s3) phase conf s3;
     Some (updateLensPosition s4)
   }"

text \<open>The end of \<^verbatim>\<open>prepare\<close>: the status written to the metadata.\<close>

definition reportStatus :: "Af \<Rightarrow> AfStatus option" where
  "reportStatus s = do {
     lens \<leftarrow>
       (if initted s then map_option Some (pwlEval (lensMap (cfg s)) (fsmooth s))
        else Some None);
     Some \<lparr>st_state = (if mode s = AfModeAuto \<and> scanState s \<noteq> Idle then AfStateScanning
                       else reportState s),
           st_pauseState = (if pauseFlag s
                            then (if scanState s = Idle then Paused else Pausing)
                            else Running),
           st_lensSetting = lens\<rparr>
   }"

definition prepare :: "Metadata \<Rightarrow> Af \<Rightarrow> (AfStatus \<times> Af) option" where
  "prepare md s0 = do {
     let s1 = (if scanState s0 = Trigger then startAF s0 else s0);
     s5 \<leftarrow> (if initted s1 then prepareAF md s1 else Some s1);
     status \<leftarrow> reportStatus s5;
     Some (status, s5)
   }"

definition process :: "Statistics \<Rightarrow> Af \<Rightarrow> Af option" where
  "process st s0 = do {
     (contrast, s1) \<leftarrow> getContrast (focusRegions st) s0;
     Some (s1\<lparr>prevContrast := contrast, stats := Some st\<rparr>)
   }"

subsection \<open>Construction, configuration and mode switch\<close>

text \<open>
  The constructor. It leaves \<^verbatim>\<open>scanMaxIndex_\<close>, \<^verbatim>\<open>last_mean\<close>, \<^verbatim>\<open>trigger_when_stable\<close>,
  \<^verbatim>\<open>last_agc_status\<close> and \<^verbatim>\<open>stable_frame_count\<close> without a value of its own; whatever they
  hold is a parameter here. The two pointers start null.
\<close>

definition Af_ctor :: "u32 \<Rightarrow> real option \<Rightarrow> bool \<Rightarrow> bool \<Rightarrow> u32 \<Rightarrow> Af" where
  "Af_ctor maxIndex0 mean0 stable0 agc0 count0 =
     \<lparr>cfg = CfgParams_default, rangeSel = AfRangeNormal, speed = AfSpeedNormal,
      mode = AfModeManual, pauseFlag = False,
      statsRegion = \<lparr>r_x = 0, r_y = 0, r_width = 0, r_height = 0\<rparr>,
      windows = [], useWindows = False,
      phaseWeights = \<lparr>wg_rows = 0, wg_cols = 0, wg_sum = 0, wg_w = []\<rparr>,
      contrastWeights = \<lparr>wg_rows = 0, wg_cols = 0, wg_sum = 0, wg_w = []\<rparr>,
      scanState = Idle, initted = False, ftarget = - 1.0, fsmooth = - 1.0,
      prevContrast = 0.0, skipCount = 0, stepCount = 0, dropCount = 0,
      scanMaxContrast = 0.0, scanMinContrast = 1000000000, scanMaxIndex = maxIndex0,
      scanData = [], reportState = AfStateIdle, isPdafEnabled = False,
      imageMetadata = None, stats = None, last_mean = mean0,
      trigger_when_stable = stable0, last_agc_status = agc0, stable_frame_count = count0\<rparr>"

text \<open>
  \<^verbatim>\<open>Af::read\<close> overwrites the parameters the tuning file names; the parser is not among
  the sources, so the parameters it leaves are the argument.
\<close>

definition read :: "CfgParams \<Rightarrow> Af \<Rightarrow> Af" where
  "read c s = s\<lparr>cfg := c\<rparr>"

definition initialise :: "Af \<Rightarrow> Af" where
  "initialise s = s\<lparr>cfg := CfgParams_initialise (cfg s)\<rparr>"

definition switchMode :: "CameraMode \<Rightarrow> Af \<Rightarrow> Af option" where
  "switchMode cameraMode s0 = do {
     x \<leftarrow> toInt (cm_cropX cameraMode);
     y \<leftarrow> toInt (cm_cropY cameraMode);
     width \<leftarrow> toUnsigned (real (unat (cm_width cameraMode)) * cm_scaleX cameraMode);
     height \<leftarrow> toUnsigned (real (unat (cm_height cameraMode)) * cm_scaleY cameraMode);
     let s1 = invalidateWeights
                (s0\<lparr>statsRegion := \<lparr>r_x = x, r_y = y, r_width = width, r_height = height\<rparr>\<rparr>);
     let s2 = (if scanOrd (scanState s1) \<ge> scanOrd Coarse \<and>
                  scanOrd (scanState s1) < scanOrd Settle
               then startProgrammedScan s1 else s1);
     Some (s2\<lparr>skipCount := skipFrames (cfg s2)\<rparr>)
   }"

subsection \<open>Controls\<close>

definition setRange :: "AfRange \<Rightarrow> Af \<Rightarrow> Af" where
  "setRange r s = (if r < AfRangeMax then s\<lparr>rangeSel := r\<rparr> else s)"

definition setSpeed :: "AfSpeed \<Rightarrow> Af \<Rightarrow> Af" where
  "setSpeed sp s =
     (if sp < AfSpeedMax then
        (let s1 = (if scanState s = Pdaf \<and>
                      pdafFrames (speeds (cfg s) sp) > pdafFrames (speeds (cfg s) (speed s))
                   then s\<lparr>stepCount := stepCount s +
                            (pdafFrames (speeds (cfg s) sp) -
                             pdafFrames (speeds (cfg s) (speed s)))\<rparr>
                   else s)
         in s1\<lparr>speed := sp\<rparr>)
      else s)"

definition setMetering :: "bool \<Rightarrow> Af \<Rightarrow> Af" where
  "setMetering m s = (if useWindows s \<noteq> m then invalidateWeights (s\<lparr>useWindows := m\<rparr>) else s)"

text \<open>The loop of \<^verbatim>\<open>setWindows\<close>: windows are appended until there are \<^verbatim>\<open>MaxWindows\<close>.\<close>

fun pushWindows :: "Rectangle list \<Rightarrow> Rectangle list \<Rightarrow> Rectangle list" where
  "pushWindows ws [] = ws"
| "pushWindows ws (w # wins) =
     (if length (ws @ [w]) \<ge> unat MaxWindows then ws @ [w] else pushWindows (ws @ [w]) wins)"

definition setWindows :: "Rectangle list \<Rightarrow> Af \<Rightarrow> Af" where
  "setWindows wins s =
     (let s1 = s\<lparr>windows := pushWindows [] wins\<rparr>
      in if useWindows s1 then invalidateWeights s1 else s1)"

text \<open>\<open>hwpos\<close> tells whether the caller passed a pointer for the hardware position.\<close>

definition setLensPosition :: "real \<Rightarrow> bool \<Rightarrow> Af \<Rightarrow> ((bool \<times> int option) \<times> Af) option" where
  "setLensPosition dioptres hwpos s0 = do {
     (changed, s1) \<leftarrow>
       (if mode s0 = AfModeManual then do {
          f \<leftarrow> pwlClip (lensMap (cfg s0)) dioptres;
          let s = s0\<lparr>ftarget := f\<rparr>;
          Some (\<not> (initted s \<and> fsmooth s = ftarget s), updateLensPosition s)
        }
        else Some (False, s0));
     pos \<leftarrow> (if hwpos then map_option Some (pwlEval (lensMap (cfg s1)) (fsmooth s1))
             else Some None);
     Some ((changed, pos), s1)
   }"

definition getLensPosition :: "Af \<Rightarrow> real option" where
  "getLensPosition s = (if initted s then Some (fsmooth s) else None)"

definition cancelScan :: "Af \<Rightarrow> Af" where
  "cancelScan s = (if mode s = AfModeAuto then goIdle s else s)"

definition triggerScan :: "Af \<Rightarrow> Af" where
  "triggerScan s =
     (if mode s = AfModeAuto \<and> scanState s = Idle then s\<lparr>scanState := Trigger\<rparr> else s)"

definition setMode :: "AfMode \<Rightarrow> Af \<Rightarrow> Af" where
  "setMode m s0 =
     (if mode s0 \<noteq> m then
        (let s1 = s0\<lparr>mode := m, pauseFlag := False\<rparr>
         in if m = AfModeContinuous then s1\<lparr>scanState := Trigger\<rparr>
            else if m \<noteq> AfModeAuto \<or> scanOrd (scanState s1) < scanOrd Coarse then goIdle s1
            else s1)
      else s0)"

definition getMode :: "Af \<Rightarrow> AfMode" where
  "getMode s = mode s"

definition pause :: "AfPause \<Rightarrow> Af \<Rightarrow> Af" where
  "pause p s0 =
     (if mode s0 = AfModeContinuous then
        (if p = AfPauseResume \<and> pauseFlag s0 then
           (let s1 = s0\<lparr>pauseFlag := False\<rparr>
            in if scanOrd (scanState s1) < scanOrd Coarse then s1\<lparr>scanState := Trigger\<rparr> else s1)
         else if p \<noteq> AfPauseResume \<and> \<not> pauseFlag s0 then
           (let s1 = s0\<lparr>pauseFlag := True\<rparr>
            in if p = AfPauseImmediate \<or> scanOrd (scanState s1) < scanOrd Coarse then goIdle s1
               else s1)
         else s0)
      else s0)"

subsection \<open>The states an instance can be in\<close>

text \<open>
  An instance is constructed and then driven through its public member functions, in any
  order and with any arguments; a call whose result is undefined ends the run.
\<close>

inductive reachable :: "Af \<Rightarrow> bool" where
  r_ctor: "reachable (Af_ctor maxIndex0 mean0 stable0 agc0 count0)"
| r_read: "reachable s \<Longrightarrow> reachable (read c s)"
| r_initialise: "reachable s \<Longrightarrow> reachable (initialise s)"
| r_switchMode: "reachable s \<Longrightarrow> switchMode cameraMode s = Some s' \<Longrightarrow> reachable s'"
| r_prepare: "reachable s \<Longrightarrow> prepare md s = Some (status, s') \<Longrightarrow> reachable s'"
| r_process: "reachable s \<Longrightarrow> process st s = Some s' \<Longrightarrow> reachable s'"
| r_setRange: "reachable s \<Longrightarrow> reachable (setRange r s)"
| r_setSpeed: "reachable s \<Longrightarrow> reachable (setSpeed sp s)"
| r_setMetering: "reachable s \<Longrightarrow> reachable (setMetering m s)"
| r_setWindows: "reachable s \<Longrightarrow> reachable (setWindows wins s)"
| r_setLensPosition:
    "reachable s \<Longrightarrow> setLensPosition dioptres hwpos s = Some (res, s') \<Longrightarrow> reachable s'"
| r_cancelScan: "reachable s \<Longrightarrow> reachable (cancelScan s)"
| r_triggerScan: "reachable s \<Longrightarrow> reachable (triggerScan s)"
| r_setMode: "reachable s \<Longrightarrow> reachable (setMode m s)"
| r_pause: "reachable s \<Longrightarrow> reachable (pause p s)"

section \<open>Properties\<close>

subsection \<open>Invariants of the reachable states\<close>

text \<open>The index of the best sample lies inside the recorded scan, when there is one.\<close>

definition scanIndexOk :: "Af \<Rightarrow> bool" where
  "scanIndexOk s = (scanData s = [] \<or> unat (scanMaxIndex s) < length (scanData s))"

text \<open>A paused instance is in continuous mode and neither triggered nor in PDAF control.\<close>

definition pauseOk :: "Af \<Rightarrow> bool" where
  "pauseOk s =
     (pauseFlag s \<longrightarrow>
        mode s = AfModeContinuous \<and> scanState s \<noteq> Trigger \<and> scanState s \<noteq> Pdaf)"

text \<open>What one step of the per-frame core may do to the mode, the pause flag and the scan state.\<close>

definition stepOk :: "Af \<Rightarrow> Af \<Rightarrow> bool" where
  "stepOk s s' =
     (pauseFlag s' = pauseFlag s \<and> mode s' = mode s \<and>
      (\<not> pauseFlag s \<or> scanState s' = scanState s \<or> scanState s' = Idle \<or>
       scanState s' = Coarse \<or> scanState s' = Fine \<or> scanState s' = Settle))"

subsection \<open>The central window\<close>

text \<open>
  The cells the fallback loops of \<^verbatim>\<open>computeWeights\<close> visit, for a grid of \<open>R\<close> rows and
  \<open>C\<close> columns: rows \<open>R div 3\<close> up to but excluding \<open>R - R div 3\<close>, columns \<open>C div 4\<close> up
  to but excluding \<open>C - C div 4\<close>.
\<close>

definition inCentral :: "nat \<Rightarrow> nat \<Rightarrow> nat \<Rightarrow> nat \<Rightarrow> bool" where
  "inCentral R C r c = (R div 3 \<le> r \<and> r < R - R div 3 \<and> C div 4 \<le> c \<and> c < C - C div 4)"

text \<open>
  The window in the spec's words: rows from the ceiling of \<open>R/3\<close> up to \<open>R\<close> minus the floor
  of \<open>R/3\<close>, columns from the ceiling of \<open>C/4\<close> up to \<open>C\<close> minus the floor of \<open>C/4\<close>. The
  upper ends are taken inclusive, the larger of the two readings.
\<close>

definition spec_centralWindow :: "nat \<Rightarrow> nat \<Rightarrow> nat \<Rightarrow> nat \<Rightarrow> bool" where
  "spec_centralWindow R C r c =
     ((R + 2) div 3 \<le> r \<and> r \<le> R - R div 3 \<and> (C + 3) div 4 \<le> c \<and> c \<le> C - C div 4)"

subsection \<open>Phase fusion in the spec's words\<close>







subsection \<open>Sample configurations and states\<close>

text \<open>A tuning file that disables PDAF, and one with a single dropout frame and no skipped frames.\<close>

definition ex_cfg :: CfgParams where
  "ex_cfg =
     CfgParams_default\<lparr>speeds := (\<lambda>_. SpeedDependentParams_default\<lparr>dropoutFrames := 0\<rparr>)\<rparr>"

definition ex_cfg2 :: CfgParams where
  "ex_cfg2 =
     CfgParams_default\<lparr>speeds := (\<lambda>_. SpeedDependentParams_default\<lparr>dropoutFrames := 1\<rparr>),
                       skipFrames := 0\<rparr>"

text \<open>A frame without PDAF data and without AGC status.\<close>

definition ex_md :: Metadata where
  "ex_md = \<lparr>md_pdaf_regions = None, md_agc_locked = None\<rparr>"

text \<open>Continuous mode after its first frame with \<open>ex_cfg\<close>: a coarse scan is under way.\<close>

definition ex_scanning :: Af where
  "ex_scanning =
     snd (the (prepare ex_md
       (setMode AfModeContinuous (initialise (read ex_cfg (Af_ctor 0 None False False 0))))))"

text \<open>The lens set to 10 dioptres by hand, then a scan triggered in auto mode, with \<open>ex_cfg2\<close>.\<close>

definition ex_lens :: Af where
  "ex_lens =
     triggerScan (setMode AfModeAuto (snd (the (setLensPosition 10 True
       (initialise (read ex_cfg2 (Af_ctor 0 None False False 0)))))))"

text \<open>A triggered PDAF sequence of the default tuning with two of its frames left.\<close>

definition ex_pdaf :: Af where
  "ex_pdaf =
     (Af_ctor 0 None False False 0)\<lparr>mode := AfModeAuto, scanState := Pdaf, initted := True,
        stepCount := 2, ftarget := 3, fsmooth := 3\<rparr>"

definition ex_region :: Rectangle where
  "ex_region = \<lparr>r_x = 0, r_y = 0, r_width = 0, r_height = 0\<rparr>"


text \<open>The end of a scan that saw a peak, and of one that saw a ramp only.\<close>

definition ex_settle :: Af where
  "ex_settle =
     (Af_ctor 0 None False False 0)\<lparr>mode := AfModeAuto, scanState := Settle, initted := True,
        prevContrast := 90, scanMaxContrast := 100, scanMinContrast := 10\<rparr>"

definition ex_ramp :: Af where
  "ex_ramp = ex_settle\<lparr>scanMinContrast := 80\<rparr>"

text \<open>A coarse scan with one confident sample recorded.\<close>

definition ex_early :: Af where
  "ex_early =
     (Af_ctor 0 None False False 0)\<lparr>scanState := Coarse, initted := True, ftarget := 2,
        fsmooth := 2,
        scanData := [\<lparr>sr_focus = 1, sr_contrast = 50, sr_phase = - 10, sr_conf = 20\<rparr>]\<rparr>"

text \<open>Three samples around a symmetric peak, and three of equal contrast.\<close>

definition ex_peak :: Af where
  "ex_peak =
     (Af_ctor 0 None False False 0)\<lparr>scanData :=
        [\<lparr>sr_focus = 2, sr_contrast = 40, sr_phase = 0, sr_conf = 0\<rparr>,
         \<lparr>sr_focus = 3, sr_contrast = 50, sr_phase = 0, sr_conf = 0\<rparr>,
         \<lparr>sr_focus = 4, sr_contrast = 40, sr_phase = 0, sr_conf = 0\<rparr>]\<rparr>"

definition ex_flat :: Af where
  "ex_flat =
     (Af_ctor 0 None False False 0)\<lparr>scanData :=
        [\<lparr>sr_focus = 2, sr_contrast = 40, sr_phase = 0, sr_conf = 0\<rparr>,
         \<lparr>sr_focus = 3, sr_contrast = 40, sr_phase = 0, sr_conf = 0\<rparr>,
         \<lparr>sr_focus = 4, sr_contrast = 40, sr_phase = 0, sr_conf = 0\<rparr>]\<rparr>"

section \<open>Proofs\<close>

subsection \<open>Evaluating the sample states\<close>

lemmas ex_defs =
  prepare_def prepareAF_def reportStatus_def ex_md_def ex_cfg_def ex_cfg2_def setMode_def
  initialise_def read_def Af_ctor_def startAF_def startProgrammedScan_def
  updateLensPosition_def doAF_def doAF_pdaf_def CfgParams_initialise_def CfgParams_default_def
  SpeedDependentParams_default_def RangeDependentParams_default_def pwlEval_def pwlClip_def
  Let_def AfRangeNormal_def AfSpeedNormal_def setLensPosition_def triggerScan_def goIdle_def
  clamp_def

lemma ex_scanning_defined:
  "prepare ex_md
     (setMode AfModeContinuous (initialise (read ex_cfg (Af_ctor 0 None False False 0)))) \<noteq> None"
  by (simp add: ex_defs)

lemma ex_scanning_val:
  "scanState ex_scanning = Coarse \<and> mode ex_scanning = AfModeContinuous \<and>
   \<not> pauseFlag ex_scanning"
  by (simp add: ex_scanning_def ex_defs)


lemma reachable_prepare:
  "reachable s \<Longrightarrow> prepare md s \<noteq> None \<Longrightarrow> reachable (snd (the (prepare md s)))"
  by (cases "prepare md s") (auto intro: r_prepare)

lemma reachable_ex_scanning: "reachable ex_scanning"
  unfolding ex_scanning_def
  by (intro reachable_prepare r_setMode r_initialise r_read r_ctor ex_scanning_defined)

lemma reachable_setLensPosition:
  "reachable s \<Longrightarrow> setLensPosition d h s \<noteq> None \<Longrightarrow>
     reachable (snd (the (setLensPosition d h s)))"
  by (cases "setLensPosition d h s") (auto intro: r_setLensPosition)

lemma ex_lens_defined:
  "setLensPosition 10 True (initialise (read ex_cfg2 (Af_ctor 0 None False False 0))) \<noteq> None"
  by (simp add: ex_defs)

lemma reachable_ex_lens: "reachable ex_lens"
  unfolding ex_lens_def
  by (intro r_triggerScan r_setMode reachable_setLensPosition r_initialise r_read r_ctor
        ex_lens_defined)

subsection \<open>The linear ramp of the triggered PDAF sequence\<close>

text \<open>
  \<^bold>\<open>C1\<close>. In triggered-auto mode \<^verbatim>\<open>doPDAF\<close> multiplies the gain-scaled phase by
  \<^verbatim>\<open>stepCount_ / stepFrames\<close>. Both operands are unsigned integers, so the quotient is
  truncated: whenever \<open>stepCount < stepFrames\<close> the factor is 0, no correction is applied
  and the target stays at the smoothed lens position, where the spec promises the
  proportional correction \<open>phase * stepCount / stepFrames\<close>.
\<close>

theorem doPDAF_ramp_truncates:
  assumes "mode s \<noteq> AfModeContinuous"
    and "stepCount s < stepFrames (speeds (cfg s) (speed s))"
    and "0 \<le> maxSlew (speeds (cfg s) (speed s))"
  shows "ftarget (doPDAF phase conf s) = fsmooth s \<and>
         stepCount (doPDAF phase conf s) = stepCount s \<and>
         reportState (doPDAF phase conf s) = AfStateFocused"
proof -
  have "unat (stepCount s div stepFrames (speeds (cfg s) (speed s))) = 0"
    using assms(2) by (simp add: unat_div word_less_nat_alt)
  then have "stepCount s div stepFrames (speeds (cfg s) (speed s)) = 0"
    by (simp add: unat_eq_zero)
  then show ?thesis
    using assms by (simp add: doPDAF_def Let_def not_le[symmetric])
qed

text \<open>
  With two of four ramp frames left and a gain-scaled phase of 1 dioptre the spec's ramp
  gives a correction of 0.5; the code applies none.
\<close>

theorem doPDAF_ramp_truncates_witness:
  "mode ex_pdaf \<noteq> AfModeContinuous \<and>
   stepCount ex_pdaf = 2 \<and> stepFrames (speeds (cfg ex_pdaf) (speed ex_pdaf)) = 4 \<and>
   0 \<le> maxSlew (speeds (cfg ex_pdaf) (speed ex_pdaf)) \<and>
   (- 50) * pdafGain (speeds (cfg ex_pdaf) (speed ex_pdaf)) = 1 \<and>
   ftarget (doPDAF (- 50) 100 ex_pdaf) = fsmooth ex_pdaf"
proof -
  have h: "mode ex_pdaf \<noteq> AfModeContinuous"
    "stepCount ex_pdaf < stepFrames (speeds (cfg ex_pdaf) (speed ex_pdaf))"
    "0 \<le> maxSlew (speeds (cfg ex_pdaf) (speed ex_pdaf))"
    by (simp_all add: ex_pdaf_def ex_defs)
  have "stepCount ex_pdaf = 2 \<and> stepFrames (speeds (cfg ex_pdaf) (speed ex_pdaf)) = 4 \<and>
    (- 50) * pdafGain (speeds (cfg ex_pdaf) (speed ex_pdaf)) = 1"
    by (simp add: ex_pdaf_def ex_defs)
  then show ?thesis using doPDAF_ramp_truncates[OF h, of "- 50" 100] h by simp
qed

subsection \<open>The slew limit\<close>




subsection \<open>Reads of the scan record\<close>

lemma unat_pred_less: "0 < (i::u32) \<Longrightarrow> unat (i - 1) < unat i"
  by (simp add: unat_minus_one word_neq_0_conv[symmetric] unat_gt_0)

lemma findPeak_Some: "unat i < length (scanData s) \<Longrightarrow> \<exists>f. findPeak i s = Some f"
  using unat_pred_less[of i]
  by (auto simp: findPeak_def vecAt_def Let_def)

lemma findPeak_None_iff: "findPeak i s = None \<longleftrightarrow> length (scanData s) \<le> unat i"
proof (cases "unat i < length (scanData s)")
  case True
  then show ?thesis using findPeak_Some[of i s] by auto
next
  case False
  then show ?thesis by (simp add: findPeak_def vecAt_def)
qed

lemma unat_of_nat_le: "unat (of_nat n :: u32) \<le> n"
  by (simp add: unat_of_nat)

subsection \<open>What each member function does to the scan record, the mode and the pause flag\<close>

lemma stepOk_pauseOk: "pauseOk s \<Longrightarrow> stepOk s s' \<Longrightarrow> pauseOk s'"
  by (auto simp: pauseOk_def stepOk_def)

lemma updateLensPosition_frame:
  "scanData (updateLensPosition s) = scanData s"
  "scanMaxIndex (updateLensPosition s) = scanMaxIndex s"
  "pauseFlag (updateLensPosition s) = pauseFlag s"
  "mode (updateLensPosition s) = mode s"
  "scanState (updateLensPosition s) = scanState s"
  by (simp_all add: updateLensPosition_def Let_def)

lemma startProgrammedScan_frame:
  "scanData (startProgrammedScan s) = []"
  "pauseFlag (startProgrammedScan s) = pauseFlag s"
  "mode (startProgrammedScan s) = mode s"
  "scanState (startProgrammedScan s) = Coarse"
  by (simp_all add: startProgrammedScan_def Let_def updateLensPosition_frame)

lemma startAF_frame:
  "scanData (startAF s) = []"
  "pauseFlag (startAF s) = pauseFlag s"
  "mode (startAF s) = mode s"
  "scanState (startAF s) = Pdaf \<or> scanState (startAF s) = Coarse"
  by (simp_all add: startAF_def Let_def updateLensPosition_frame startProgrammedScan_frame)

lemma doPDAF_frame:
  "scanData (doPDAF p c s) = scanData s"
  "scanMaxIndex (doPDAF p c s) = scanMaxIndex s"
  "pauseFlag (doPDAF p c s) = pauseFlag s"
  "mode (doPDAF p c s) = mode s"
  "scanState (doPDAF p c s) = scanState s"
  by (simp_all add: doPDAF_def Let_def split: prod.splits)

lemma earlyTerminationByPhase_frame:
  "scanData (snd (earlyTerminationByPhase p s)) = scanData s"
  "scanMaxIndex (snd (earlyTerminationByPhase p s)) = scanMaxIndex s"
  "pauseFlag (snd (earlyTerminationByPhase p s)) = pauseFlag s"
  "mode (snd (earlyTerminationByPhase p s)) = mode s"
  "scanState (snd (earlyTerminationByPhase p s)) = scanState s"
  by (simp_all add: earlyTerminationByPhase_def Let_def)

lemma doScanRecord_frame:
  "pauseFlag (doScanRecord c p cf s) = pauseFlag s"
  "mode (doScanRecord c p cf s) = mode s"
  "scanState (doScanRecord c p cf s) = scanState s"
  by (simp_all add: doScanRecord_def Let_def)

lemma doScanRecord_index:
  "scanIndexOk s \<Longrightarrow>
     unat (scanMaxIndex (doScanRecord c p cf s)) < length (scanData (doScanRecord c p cf s))"
  using unat_of_nat_le[of "length (scanData s)"]
  by (auto simp add: doScanRecord_def Let_def scanIndexOk_def)

lemma doScan_ok:
  assumes "scanIndexOk s"
  shows "\<exists>s'. doScan c p cf s = Some s' \<and> scanIndexOk s' \<and> pauseFlag s' = pauseFlag s \<and>
           mode s' = mode s \<and>
           (scanState s' = scanState s \<or> scanState s' = Fine \<or> scanState s' = Settle)"
proof -
  define s3 where "s3 = doScanRecord c p cf s"
  have idx: "unat (scanMaxIndex s3) < length (scanData s3)"
    unfolding s3_def using assms by (rule doScanRecord_index)
  then obtain f where f: "findPeak (scanMaxIndex s3) s3 = Some f"
    using findPeak_Some by blast
  have fr: "pauseFlag s3 = pauseFlag s" "mode s3 = mode s" "scanState s3 = scanState s"
    by (simp_all add: s3_def doScanRecord_frame)
  show ?thesis
    unfolding doScan_def Let_def s3_def[symmetric]
    using idx f fr by (simp add: scanIndexOk_def)
qed

lemma doAF_settle_frame:
  "scanData (doAF_settle s) = []"
  "pauseFlag (doAF_settle s) = pauseFlag s"
  "mode (doAF_settle s) = mode s"
  "scanState (doAF_settle s) = Idle \<or> (scanState (doAF_settle s) = Pdaf \<and> \<not> pauseFlag s)"
  by (simp_all add: doAF_settle_def Let_def)

lemma doAF_pdaf_ok:
  "scanIndexOk s \<Longrightarrow> scanIndexOk (doAF_pdaf p c s)"
  "pauseFlag (doAF_pdaf p c s) = pauseFlag s"
  "mode (doAF_pdaf p c s) = mode s"
  "scanState (doAF_pdaf p c s) \<in> {scanState s, Idle, Coarse}"
  by (simp_all add: doAF_pdaf_def Let_def scanIndexOk_def doPDAF_frame startProgrammedScan_frame)

lemma doAF_scan_ok:
  assumes "scanIndexOk s"
  shows "\<exists>s'. doAF_scan c p cf s = Some s' \<and> scanIndexOk s' \<and> pauseFlag s' = pauseFlag s \<and>
           mode s' = mode s \<and>
           (scanState s' = scanState s \<or> scanState s' = Fine \<or> scanState s' = Settle \<or>
            scanState s' = Idle \<or> (scanState s' = Pdaf \<and> \<not> pauseFlag s))"
  using doScan_ok[OF assms, of c p cf] doAF_settle_frame[of s] assms
  by (auto simp add: doAF_scan_def Let_def scanIndexOk_def earlyTerminationByPhase_frame)

lemma sceneMonitor_ok:
  assumes "sceneMonitor s = Some s'" "scanIndexOk s"
  shows "scanIndexOk s' \<and> stepOk s s'"
  using assms
  by (auto simp add: sceneMonitor_def Let_def scanIndexOk_def stepOk_def
        startProgrammedScan_frame split: Option.bind_splits if_splits)

lemma doAF_cases:
  assumes "doAF c p cf s = Some s'"
  shows "s' = s\<lparr>skipCount := skipCount s - 1\<rparr> \<or> sceneMonitor s = Some s' \<or>
         (scanState s = Pdaf \<and> s' = doAF_pdaf p cf s) \<or> doAF_scan c p cf s = Some s' \<or> s' = s"
  using assms unfolding doAF_def by (simp split: if_splits)

lemma doAF_ok:
  assumes "doAF c p cf s = Some s'" "scanIndexOk s"
  shows "scanIndexOk s' \<and> stepOk s s'"
proof -
  from doAF_cases[OF assms(1)]
  consider (skip) "s' = s\<lparr>skipCount := skipCount s - 1\<rparr>"
    | (scene) "sceneMonitor s = Some s'"
    | (pdaf) "scanState s = Pdaf" "s' = doAF_pdaf p cf s"
    | (scan) "doAF_scan c p cf s = Some s'"
    | (none) "s' = s"
    by blast
  then show ?thesis
  proof cases
    case skip
    then show ?thesis using assms(2) by (simp add: scanIndexOk_def stepOk_def)
  next
    case scene
    then show ?thesis using sceneMonitor_ok assms(2) by blast
  next
    case pdaf
    have "scanState s' = scanState s \<or> scanState s' = Idle \<or> scanState s' = Coarse"
      using doAF_pdaf_ok(4)[of p cf s] pdaf(2) by simp
    moreover have "scanIndexOk s'"
      using doAF_pdaf_ok(1)[OF assms(2), of p cf] pdaf(2) by simp
    ultimately show ?thesis
      using pdaf(2) unfolding stepOk_def by (simp add: doAF_pdaf_ok(2,3)) blast
  next
    case scan
    from doAF_scan_ok[OF assms(2), of c p cf] scan
    have "scanIndexOk s'" "pauseFlag s' = pauseFlag s" "mode s' = mode s"
      "scanState s' = scanState s \<or> scanState s' = Fine \<or> scanState s' = Settle \<or>
       scanState s' = Idle \<or> (scanState s' = Pdaf \<and> \<not> pauseFlag s)"
      by auto
    then show ?thesis unfolding stepOk_def by blast
  next
    case none
    then show ?thesis using assms(2) by (simp add: stepOk_def)
  qed
qed

lemma getPhase_frame:
  "getPhase regions s = Some (res, s') \<Longrightarrow> \<exists>w. s' = s\<lparr>phaseWeights := w\<rparr>"
  by (auto simp: getPhase_def split: Option.bind_splits prod.splits)

lemma getContrast_frame:
  "getContrast regions s = Some (res, s') \<Longrightarrow> \<exists>w. s' = s\<lparr>contrastWeights := w\<rparr>"
  by (auto simp: getContrast_def split: Option.bind_splits prod.splits)

lemma prepareAF_ok:
  assumes "prepareAF md s = Some s'" "scanIndexOk s"
  shows "scanIndexOk s' \<and> stepOk s s'"
proof -
  from assms(1) obtain ph cf s3 s4 where
    s3: "(case md_pdaf_regions md of
          Some regions \<Rightarrow> do {
            (res, t) \<leftarrow> getPhase regions (s\<lparr>imageMetadata := Some md\<rparr>);
            Some ((fst (snd res), snd (snd res)), t\<lparr>isPdafEnabled := True\<rparr>)
          }
        | None \<Rightarrow> Some ((0.0, 0.0), s\<lparr>imageMetadata := Some md\<rparr>)) = Some ((ph, cf), s3)"
    and s4: "doAF (prevContrast s3) ph cf s3 = Some s4" and s': "s' = updateLensPosition s4"
    by (auto simp: prepareAF_def Let_def split: Option.bind_splits prod.splits)
  have fr3: "scanData s3 = scanData s" "scanMaxIndex s3 = scanMaxIndex s"
    "pauseFlag s3 = pauseFlag s" "mode s3 = mode s" "scanState s3 = scanState s"
    using s3 by (auto split: option.splits Option.bind_splits prod.splits dest!: getPhase_frame)
  have "scanIndexOk s3" using assms(2) fr3 by (simp add: scanIndexOk_def)
  from doAF_ok[OF s4 this] show ?thesis
    using fr3 s' by (auto simp: scanIndexOk_def stepOk_def updateLensPosition_frame)
qed

lemma prepare_ok:
  assumes "prepare md s = Some (st, s')" "scanIndexOk s" "pauseOk s"
  shows "scanIndexOk s' \<and> pauseOk s'"
proof -
  define s1 where "s1 = (if scanState s = Trigger then startAF s else s)"
  have ok1: "scanIndexOk s1" "pauseOk s1"
    using assms(2,3) startAF_frame[of s] by (auto simp: s1_def scanIndexOk_def pauseOk_def)
  have "(if initted s1 then prepareAF md s1 else Some s1) = Some s'"
    using assms(1) by (auto simp: prepare_def Let_def s1_def[symmetric] split: Option.bind_splits)
  then show ?thesis
    using ok1 prepareAF_ok[of md s1 s'] stepOk_pauseOk[of s1 s'] by (auto split: if_splits)
qed

lemma process_ok:
  assumes "process st s = Some s'" "scanIndexOk s" "pauseOk s"
  shows "scanIndexOk s' \<and> pauseOk s'"
  using assms
  by (auto simp: process_def scanIndexOk_def pauseOk_def
        split: Option.bind_splits prod.splits dest!: getContrast_frame)

lemma switchMode_ok:
  assumes "switchMode cm s = Some s'" "scanIndexOk s" "pauseOk s"
  shows "scanIndexOk s' \<and> pauseOk s'"
  using assms
  by (auto simp: switchMode_def Let_def scanIndexOk_def pauseOk_def invalidateWeights_def
        startProgrammedScan_frame split: Option.bind_splits if_splits)

lemma setLensPosition_ok:
  assumes "setLensPosition d h s = Some (res, s')" "scanIndexOk s" "pauseOk s"
  shows "scanIndexOk s' \<and> pauseOk s'"
  using assms
  by (auto simp: setLensPosition_def Let_def scanIndexOk_def pauseOk_def
        updateLensPosition_frame split: Option.bind_splits if_splits)

lemma controls_ok:
  assumes "scanIndexOk s" "pauseOk s"
  shows "scanIndexOk (setRange r s) \<and> pauseOk (setRange r s)"
    "scanIndexOk (setSpeed sp s) \<and> pauseOk (setSpeed sp s)"
    "scanIndexOk (setMetering m s) \<and> pauseOk (setMetering m s)"
    "scanIndexOk (setWindows wins s) \<and> pauseOk (setWindows wins s)"
    "scanIndexOk (cancelScan s) \<and> pauseOk (cancelScan s)"
    "scanIndexOk (triggerScan s) \<and> pauseOk (triggerScan s)"
    "scanIndexOk (setMode md s) \<and> pauseOk (setMode md s)"
    "scanIndexOk (pause p s) \<and> pauseOk (pause p s)"
    "scanIndexOk (read c s) \<and> pauseOk (read c s)"
    "scanIndexOk (initialise s) \<and> pauseOk (initialise s)"
  using assms
  by (auto simp: scanIndexOk_def pauseOk_def setRange_def setSpeed_def setMetering_def
        setWindows_def cancelScan_def triggerScan_def setMode_def pause_def read_def
        initialise_def goIdle_def Let_def invalidateWeights_def)

lemma reachable_inv: "reachable s \<Longrightarrow> scanIndexOk s \<and> pauseOk s"
proof (induction rule: reachable.induct)
  case (r_ctor maxIndex0 mean0 stable0 agc0 count0)
  then show ?case by (simp add: Af_ctor_def scanIndexOk_def pauseOk_def)
next
  case (r_switchMode s cameraMode s')
  then show ?case using switchMode_ok by blast
next
  case (r_prepare s md status s')
  then show ?case using prepare_ok by blast
next
  case (r_process s st s')
  then show ?case using process_ok by blast
next
  case (r_setLensPosition s dioptres hwpos res s')
  then show ?case using setLensPosition_ok by blast
qed (simp_all add: controls_ok)

subsection \<open>No read of the scan record is out of bounds\<close>

text \<open>
  \<^bold>\<open>C9\<close>. In every state an instance can reach, the index \<^verbatim>\<open>scanMaxIndex_\<close> lies inside
  a non-empty \<^verbatim>\<open>scanData_\<close>; after \<^verbatim>\<open>doScan\<close> has recorded its sample, which is when it
  calls \<^verbatim>\<open>findPeak(scanMaxIndex_)\<close>, the index is below the size, and \<^verbatim>\<open>doScan\<close> has a
  defined result. \<^verbatim>\<open>findPeak\<close> itself is undefined only for an index at or beyond the size:
  its reads of the neighbours are covered by its guard.
\<close>

theorem scan_index_in_bounds:
  assumes "reachable s"
  shows "(scanData s = [] \<or> unat (scanMaxIndex s) < length (scanData s)) \<and>
         unat (scanMaxIndex (doScanRecord contrast phase conf s))
           < length (scanData (doScanRecord contrast phase conf s)) \<and>
         (\<exists>s'. doScan contrast phase conf s = Some s') \<and>
         (\<forall>i t. (findPeak i t = None) = (length (scanData t) \<le> unat i))"
proof -
  have ok: "scanIndexOk s" using reachable_inv[OF assms] by simp
  then have "scanData s = [] \<or> unat (scanMaxIndex s) < length (scanData s)"
    by (simp add: scanIndexOk_def)
  moreover have "\<exists>s'. doScan contrast phase conf s = Some s'"
    using doScan_ok[OF ok, of contrast phase conf] by blast
  ultimately show ?thesis
    using doScanRecord_index[OF ok] findPeak_None_iff by blast
qed

text \<open>A new instance whose \<^verbatim>\<open>scanMaxIndex_\<close> happens to hold 7 scans without a fault.\<close>

theorem scan_index_in_bounds_witness:
  "reachable (Af_ctor 7 None False False 0) \<and>
   unat (scanMaxIndex (doScanRecord 1 0 0 (Af_ctor 7 None False False 0)))
     < length (scanData (doScanRecord 1 0 0 (Af_ctor 7 None False False 0))) \<and>
   (\<exists>s'. doScan 1 0 0 (Af_ctor 7 None False False 0) = Some s')"
  using scan_index_in_bounds[OF r_ctor, of 7 None False False 0 1 0 0]
    r_ctor[of 7 None False False 0]
  by blast

subsection \<open>Pause and resume\<close>

text \<open>
  \<^bold>\<open>C7\<close> (amended). In every reachable state: \<^verbatim>\<open>pause\<close> changes nothing unless the mode is
  continuous; in continuous mode \<^verbatim>\<open>pause(Immediate)\<close> and \<^verbatim>\<open>pause(Deferred)\<close> change
  nothing when the pause flag is set already; with the flag clear, \<^verbatim>\<open>pause(Immediate)\<close>
  sets it and goes to \<open>Idle\<close>, and \<^verbatim>\<open>pause(Deferred)\<close> sets it, leaves the scan state of a
  scan in progress (\<open>Coarse\<close>, \<open>Fine\<close>, \<open>Settle\<close>) as it is and goes to \<open>Idle\<close> otherwise;
  \<^verbatim>\<open>pause(Resume)\<close> clears the flag and sets the scan state to \<open>Trigger\<close> exactly when the
  flag was set and the scan state was \<open>Idle\<close>.
\<close>

theorem pause_amended:
  assumes "reachable s"
  shows "(mode s \<noteq> AfModeContinuous \<longrightarrow> pause p s = s) \<and>
         (mode s = AfModeContinuous \<and> pauseFlag s \<and> p \<noteq> AfPauseResume \<longrightarrow> pause p s = s) \<and>
         (mode s = AfModeContinuous \<and> \<not> pauseFlag s \<longrightarrow>
            pauseFlag (pause AfPauseImmediate s) \<and> scanState (pause AfPauseImmediate s) = Idle) \<and>
         (mode s = AfModeContinuous \<and> \<not> pauseFlag s \<longrightarrow>
            pauseFlag (pause AfPauseDeferred s) \<and>
            scanState (pause AfPauseDeferred s) =
              (if scanState s = Coarse \<or> scanState s = Fine \<or> scanState s = Settle
               then scanState s else Idle)) \<and>
         (mode s = AfModeContinuous \<longrightarrow>
            \<not> pauseFlag (pause AfPauseResume s) \<and>
            scanState (pause AfPauseResume s) =
              (if pauseFlag s \<and> scanState s = Idle then Trigger else scanState s))"
proof -
  have "pauseOk s" using reachable_inv[OF assms] by simp
  then show ?thesis
    by (cases "scanState s") (auto simp: pause_def Let_def goIdle_def pauseOk_def)
qed

theorem pause_amended_witness:
  "reachable ex_scanning \<and>
   pauseFlag (pause AfPauseImmediate ex_scanning) \<and>
   scanState (pause AfPauseImmediate ex_scanning) = Idle \<and>
   pauseFlag (pause AfPauseDeferred ex_scanning) \<and>
   scanState (pause AfPauseDeferred ex_scanning) = Coarse \<and>
   pause AfPauseDeferred (pause AfPauseDeferred ex_scanning) = pause AfPauseDeferred ex_scanning \<and>
   scanState (pause AfPauseResume (pause AfPauseImmediate ex_scanning)) = Trigger"
proof -
  have r: "reachable ex_scanning" by (rule reachable_ex_scanning)
  have r1: "reachable (pause AfPauseDeferred ex_scanning)" by (rule r_pause[OF r])
  have r2: "reachable (pause AfPauseImmediate ex_scanning)" by (rule r_pause[OF r])
  have m: "mode (pause AfPauseDeferred ex_scanning) = AfModeContinuous"
     "pauseFlag (pause AfPauseDeferred ex_scanning)"
     "mode (pause AfPauseImmediate ex_scanning) = AfModeContinuous"
     "pauseFlag (pause AfPauseImmediate ex_scanning)"
     "scanState (pause AfPauseImmediate ex_scanning) = Idle"
    using ex_scanning_val by (simp_all add: pause_def Let_def goIdle_def)
  show ?thesis
    using pause_amended[OF r, of AfPauseDeferred] pause_amended[OF r1, of AfPauseDeferred]
      pause_amended[OF r2, of AfPauseResume] ex_scanning_val m r
    by simp
qed

text \<open>
  As first stated the claim fails: a coarse scan is under way in continuous mode,
  \<^verbatim>\<open>pause(Deferred)\<close> has set the flag, and \<^verbatim>\<open>pause(Immediate)\<close> then leaves the scan
  running instead of going to \<open>Idle\<close>.
\<close>

theorem pause_immediate_counterexample:
  "mode (pause AfPauseDeferred ex_scanning) = AfModeContinuous \<and>
   scanState (pause AfPauseImmediate (pause AfPauseDeferred ex_scanning)) = Coarse"
  using ex_scanning_val by (simp add: pause_def Let_def goIdle_def)

subsection \<open>The verdict at the end of a scan\<close>

text \<open>
  \<^bold>\<open>C5\<close>. When \<^verbatim>\<open>doAF\<close> runs in the \<open>Settle\<close> state with \<open>fsmooth = ftarget\<close>,
  \<open>skipCount = 0\<close> and \<open>stepCount = 0\<close>, it has a result, and the result reports \<open>Focused\<close>
  when \<open>prevContrast \<ge> contrastRatio * scanMaxContrast\<close> and
  \<open>scanMinContrast \<le> contrastRatio * scanMaxContrast\<close> both hold, and \<open>Failed\<close> in every
  other case.
\<close>

theorem doAF_settle_verdict:
  assumes "scanState s = Settle" and "fsmooth s = ftarget s"
    and "skipCount s = 0" and "stepCount s = 0"
  shows "\<exists>s'. doAF contrast phase conf s = Some s' \<and>
           reportState s' =
             (if prevContrast s \<ge> contrastRatio (speeds (cfg s) (speed s)) * scanMaxContrast s \<and>
                 scanMinContrast s \<le> contrastRatio (speeds (cfg s) (speed s)) * scanMaxContrast s
              then AfStateFocused else AfStateFailed)"
  using assms by (simp add: doAF_def doAF_scan_def doAF_settle_def Let_def)

theorem doAF_settle_verdict_witness:
  "scanState ex_settle = Settle \<and> fsmooth ex_settle = ftarget ex_settle \<and>
   skipCount ex_settle = 0 \<and> stepCount ex_settle = 0 \<and>
   (\<exists>s'. doAF 90 0 0 ex_settle = Some s' \<and> reportState s' = AfStateFocused) \<and>
   (\<exists>s'. doAF 90 0 0 ex_ramp = Some s' \<and> reportState s' = AfStateFailed)"
proof -
  have h: "scanState ex_settle = Settle" "fsmooth ex_settle = ftarget ex_settle"
    "skipCount ex_settle = 0" "stepCount ex_settle = 0"
    by (simp_all add: ex_settle_def Af_ctor_def)
  have h': "scanState ex_ramp = Settle" "fsmooth ex_ramp = ftarget ex_ramp"
    "skipCount ex_ramp = 0" "stepCount ex_ramp = 0"
    by (simp_all add: ex_ramp_def ex_settle_def Af_ctor_def)
  have v: "prevContrast ex_settle = 90" "scanMaxContrast ex_settle = 100"
    "scanMinContrast ex_settle = 10"
    "contrastRatio (speeds (cfg ex_settle) (speed ex_settle)) = 0.75"
    "prevContrast ex_ramp = 90" "scanMaxContrast ex_ramp = 100" "scanMinContrast ex_ramp = 80"
    "contrastRatio (speeds (cfg ex_ramp) (speed ex_ramp)) = 0.75"
    by (simp_all add: ex_ramp_def ex_settle_def Af_ctor_def CfgParams_default_def
          SpeedDependentParams_default_def)
  show ?thesis
    using doAF_settle_verdict[OF h, of 90 0 0] doAF_settle_verdict[OF h', of 90 0 0] h
    by (simp add: v)
qed

subsection \<open>Early termination by phase\<close>

text \<open>
  \<^bold>\<open>C6\<close>. \<^verbatim>\<open>earlyTerminationByPhase(phase)\<close> returns true and moves \<open>ftarget\<close> to
  \<open>ftarget + param * (oldFocus - ftarget)\<close>, with \<open>param = phase / (phase - oldPhase)\<close> and
  \<open>oldFocus\<close>, \<open>oldPhase\<close> taken from the last scan record, exactly when the scan record is
  not empty, the confidence of its last entry is at least \<open>confEpsilon\<close>,
  \<open>(ftarget - oldFocus) * (phase - oldPhase) > 0\<close> and \<open>-3.0 \<le> param \<le> 3.5\<close>; in every
  other case it returns false and leaves the state as it is.
\<close>

theorem earlyTerminationByPhase_spec:
  "earlyTerminationByPhase phase s =
     (let oldFocus = sr_focus (last (scanData s));
          oldPhase = sr_phase (last (scanData s));
          param = phase / (phase - oldPhase)
      in if scanData s \<noteq> [] \<and>
            sr_conf (last (scanData s)) \<ge> real (unat (confEpsilon (cfg s))) \<and>
            (ftarget s - oldFocus) * (phase - oldPhase) > 0 \<and>
            - 3.0 \<le> param \<and> param \<le> 3.5
         then (True, s\<lparr>ftarget := ftarget s + param * (oldFocus - ftarget s)\<rparr>)
         else (False, s))"
  by (cases "scanData s = []") (simp_all add: earlyTerminationByPhase_def Let_def last_conv_nth)

theorem earlyTerminationByPhase_spec_witness:
  "earlyTerminationByPhase (- 5) ex_early = (True, ex_early\<lparr>ftarget := 3\<rparr>) \<and>
   earlyTerminationByPhase (- 15) ex_early = (False, ex_early)"
  using earlyTerminationByPhase_spec[of "- 5" ex_early]
    earlyTerminationByPhase_spec[of "- 15" ex_early]
  by (simp add: ex_early_def Af_ctor_def CfgParams_default_def)

subsection \<open>The peak of a flat and of a symmetric scan\<close>

text \<open>
  \<^bold>\<open>C8\<close>. When all recorded contrasts are equal, \<^verbatim>\<open>findPeak(i)\<close> is the focus recorded
  at \<open>i\<close>, for every valid \<open>i\<close>; and for an interior \<open>i\<close> whose three samples are
  \<open>(f - st, c - d)\<close>, \<open>(f, c)\<close>, \<open>(f + st, c - d)\<close> with \<open>d \<ge> 0\<close>, it is exactly \<open>f\<close>.
\<close>

theorem findPeak_identity:
  "((\<forall>r \<in> set (scanData s). sr_contrast r = c) \<and> unat i < length (scanData s) \<longrightarrow>
      findPeak i s = Some (sr_focus (scanData s ! unat i))) \<and>
   (0 < i \<and> unat i < length (scanData s) \<and> unat (i + 1) < length (scanData s) \<and>
    sr_focus (scanData s ! unat (i - 1)) = f - st \<and>
    sr_contrast (scanData s ! unat (i - 1)) = c - d \<and>
    sr_focus (scanData s ! unat i) = f \<and> sr_contrast (scanData s ! unat i) = c \<and>
    sr_focus (scanData s ! unat (i + 1)) = f + st \<and>
    sr_contrast (scanData s ! unat (i + 1)) = c - d \<and> 0 \<le> d \<longrightarrow>
      findPeak i s = Some f)"
  using unat_pred_less[of i]
  by (auto simp: findPeak_def vecAt_def Let_def)

theorem findPeak_identity_witness:
  "findPeak 1 ex_peak = Some 3 \<and> findPeak 1 ex_flat = Some 3 \<and> findPeak 2 ex_flat = Some 4"
  using findPeak_identity[of ex_peak 50 1 3 1 10] findPeak_identity[of ex_flat 40 1 0 0 0]
    findPeak_identity[of ex_flat 40 2 0 0 0]
  by (simp add: ex_peak_def ex_flat_def)

subsection \<open>Arguments out of range\<close>

text \<open>
  \<^bold>\<open>C10\<close>. \<^verbatim>\<open>setRange(r)\<close> with \<open>r \<ge> AfRangeMax\<close> and \<^verbatim>\<open>setSpeed(s)\<close> with
  \<open>s \<ge> AfSpeedMax\<close> leave the whole state as it is; an argument in range becomes the
  range, respectively the speed.
\<close>

theorem setRange_setSpeed_frame:
  "(AfRangeMax \<le> r \<longrightarrow> setRange r s = s) \<and>
   (AfSpeedMax \<le> sp \<longrightarrow> setSpeed sp s = s) \<and>
   (r < AfRangeMax \<longrightarrow> rangeSel (setRange r s) = r) \<and>
   (sp < AfSpeedMax \<longrightarrow> speed (setSpeed sp s) = sp)"
  by (simp add: setRange_def setSpeed_def Let_def)

theorem setRange_setSpeed_frame_witness:
  "AfRangeMax \<le> 3 \<and> setRange 3 ex_pdaf = ex_pdaf \<and>
   AfSpeedMax \<le> 2 \<and> setSpeed 2 ex_pdaf = ex_pdaf \<and>
   AfRangeMacro < AfRangeMax \<and> rangeSel (setRange AfRangeMacro ex_pdaf) = AfRangeMacro \<and>
   AfSpeedFast < AfSpeedMax \<and> speed (setSpeed AfSpeedFast ex_pdaf) = AfSpeedFast"
  using setRange_setSpeed_frame[of 3 ex_pdaf 2]
    setRange_setSpeed_frame[of AfRangeMacro ex_pdaf AfSpeedFast]
  by (simp add: AfRangeMax_def AfSpeedMax_def AfRangeMacro_def AfSpeedFast_def)

subsection \<open>Phase fusion\<close>










subsection \<open>The central window\<close>

lemma foldM_preserves:
  assumes "\<And>x t t'. f x t = Some t' \<Longrightarrow> h t' = h t" and "foldM f xs s = Some s'"
  shows "h s' = h s"
  using assms(2)
proof (induction xs arbitrary: s)
  case Nil
  then show ?case by simp
next
  case (Cons x xs)
  then show ?case using assms(1) by (auto split: option.splits)
qed

lemma windowCell_length:
  "windowCell region cols mcw cellW cellA win r y1 c g = Some g' \<Longrightarrow> length (wg_w g') = length (wg_w g)"
  by (auto simp: windowCell_def vecUpd_def split: Option.bind_splits prod.splits if_splits)

lemma windowRow_length:
  assumes "windowRow region cols mcw cellH cellW cellA win r g = Some g'"
  shows "length (wg_w g') = length (wg_w g)"
  using assms
  by (auto simp: windowRow_def split: Option.bind_splits prod.splits if_splits
        elim!: foldM_preserves[rotated] dest: windowCell_length)

lemma windowWeights_length:
  assumes "windowWeights useWin region wins rows cols = Some g"
  shows "length (wg_w g) = unat (rows * cols)"
proof -
  have row: "foldM (windowRow region cols mcw cellH cellW cellA win) rs t = Some t' \<Longrightarrow>
      length (wg_w t') = length (wg_w t)" for mcw cellH cellW cellA win rs t t'
    by (erule foldM_preserves[rotated]) (rule windowRow_length)
  have wins: "foldM (\<lambda>win. foldM (windowRow region cols mcw cellH cellW cellA win) rs) ws t = Some t' \<Longrightarrow>
      length (wg_w t') = length (wg_w t)" for mcw cellH cellW cellA rs ws t t'
    by (erule foldM_preserves[rotated]) (rule row)
  show ?thesis using assms
    by (auto simp: windowWeights_def Let_def split: if_splits Option.bind_splits dest!: wins)
qed

lemma unat_cell_index:
  assumes "r * unat cols + c < 2 ^ 32"
  shows "unat (of_nat r * cols + of_nat c :: u32) = r * unat cols + c"
proof -
  have "unat (of_nat r * cols + of_nat c :: u32) = ((r mod 2 ^ 32) * unat cols mod 2 ^ 32 + c mod 2 ^ 32) mod 2 ^ 32"
    by (simp add: unat_word_ariths unat_of_nat)
  also have "\<dots> = (r * unat cols + c) mod 2 ^ 32"
    by (simp add: mod_simps)
  finally show ?thesis using assms by simp
qed

lemma centralCell_in:
  assumes "r * unat cols + c < length (wg_w g)" "length (wg_w g) < 2 ^ 32"
  shows "centralCell cols r c g =
           Some (g\<lparr>wg_w := (wg_w g)[r * unat cols + c := 1], wg_sum := wg_sum g + 1\<rparr>)"
proof -
  have "unat (of_nat r * cols + of_nat c :: u32) = r * unat cols + c"
    using assms by (intro unat_cell_index) simp
  then show ?thesis using assms(1) by (simp add: centralCell_def vecUpd_def)
qed

lemma central_row:
  assumes "\<forall>c \<in> set cs. r * unat cols + c < length (wg_w g)" "length (wg_w g) < 2 ^ 32"
  shows "\<exists>g'. foldM (centralCell cols r) cs g = Some g' \<and> length (wg_w g') = length (wg_w g) \<and>
           wg_sum g' = wg_sum g + of_nat (length cs) \<and>
           (\<forall>j < length (wg_w g). wg_w g' ! j =
              (if \<exists>c \<in> set cs. j = r * unat cols + c then 1 else wg_w g ! j))"
  using assms
proof (induction cs arbitrary: g)
  case Nil
  then show ?case by simp
next
  case (Cons c cs)
  let ?g1 = "g\<lparr>wg_w := (wg_w g)[r * unat cols + c := 1], wg_sum := wg_sum g + 1\<rparr>"
  have step: "centralCell cols r c g = Some ?g1"
    using Cons.prems by (intro centralCell_in) simp_all
  have "\<forall>c \<in> set cs. r * unat cols + c < length (wg_w ?g1)" "length (wg_w ?g1) < 2 ^ 32"
    using Cons.prems by simp_all
  from Cons.IH[OF this] obtain g' where g':
    "foldM (centralCell cols r) cs ?g1 = Some g'" "length (wg_w g') = length (wg_w ?g1)"
    "wg_sum g' = wg_sum ?g1 + of_nat (length cs)"
    "\<forall>j < length (wg_w ?g1). wg_w g' ! j =
              (if \<exists>c \<in> set cs. j = r * unat cols + c then 1 else wg_w ?g1 ! j)"
    by blast
  have "\<forall>j < length (wg_w g). wg_w g' ! j =
              (if \<exists>c' \<in> set (c # cs). j = r * unat cols + c' then 1 else wg_w g ! j)"
    using g'(4) by (auto simp: nth_list_update)
  then show ?case using step g'(1,2,3) by simp
qed

lemma central_rows:
  assumes "\<forall>r \<in> set rs. \<forall>c \<in> set cs. r * unat cols + c < length (wg_w g)" "length (wg_w g) < 2 ^ 32"
  shows "\<exists>g'. foldM (\<lambda>r. foldM (centralCell cols r) cs) rs g = Some g' \<and>
           length (wg_w g') = length (wg_w g) \<and>
           wg_sum g' = wg_sum g + of_nat (length rs * length cs) \<and>
           (\<forall>j < length (wg_w g). wg_w g' ! j =
              (if \<exists>r \<in> set rs. \<exists>c \<in> set cs. j = r * unat cols + c then 1 else wg_w g ! j))"
  using assms
proof (induction rs arbitrary: g)
  case Nil
  then show ?case by simp
next
  case (Cons r rs)
  have "\<forall>c \<in> set cs. r * unat cols + c < length (wg_w g)" using Cons.prems(1) by simp
  from central_row[OF this Cons.prems(2)] obtain g1 where g1:
    "foldM (centralCell cols r) cs g = Some g1" "length (wg_w g1) = length (wg_w g)"
    "wg_sum g1 = wg_sum g + of_nat (length cs)"
    "\<forall>j < length (wg_w g). wg_w g1 ! j =
              (if \<exists>c \<in> set cs. j = r * unat cols + c then 1 else wg_w g ! j)"
    by blast
  have "\<forall>r \<in> set rs. \<forall>c \<in> set cs. r * unat cols + c < length (wg_w g1)" "length (wg_w g1) < 2 ^ 32"
    using Cons.prems g1(2) by simp_all
  from Cons.IH[OF this] obtain g' where g':
    "foldM (\<lambda>r. foldM (centralCell cols r) cs) rs g1 = Some g'"
    "length (wg_w g') = length (wg_w g1)"
    "wg_sum g' = wg_sum g1 + of_nat (length rs * length cs)"
    "\<forall>j < length (wg_w g1). wg_w g' ! j =
              (if \<exists>r \<in> set rs. \<exists>c \<in> set cs. j = r * unat cols + c then 1 else wg_w g1 ! j)"
    by blast
  have "\<forall>j < length (wg_w g). wg_w g' ! j =
              (if \<exists>r' \<in> set (r # rs). \<exists>c \<in> set cs. j = r' * unat cols + c then 1 else wg_w g ! j)"
    using g'(4) g1(2,4) by auto
  moreover have "wg_sum g' = wg_sum g + of_nat (length (r # rs) * length cs)"
    using g'(3) g1(3) by (simp add: algebra_simps)
  ultimately show ?case using g1(1,2) g'(1,2) by simp
qed

lemma cell_index_unique:
  assumes "c < C" "c' < C" "r * C + c = r' * C + (c'::nat)"
  shows "r = r' \<and> c = c'"
proof -
  have "(r * C + c) div C = r" "(r' * C + c') div C = r'" using assms(1,2) by simp_all
  then have "r = r'" using assms(3) by simp
  then show ?thesis using assms(3) by simp
qed


lemma cell_index_less:
  assumes "r < R" "c < (C::nat)"
  shows "r * C + c < R * C"
proof -
  have "r * C + c < r * C + C" using assms(2) by simp
  also have "\<dots> = Suc r * C" by simp
  also have "\<dots> \<le> R * C" using assms(1) by (intro mult_le_mono1) simp
  finally show ?thesis .
qed

lemma unat_third: "unat ((rows::u32) div 3) = unat rows div 3"
  by (simp add: unat_div)

lemma unat_rest_third: "unat ((rows::u32) - rows div 3) = unat rows - unat rows div 3"
proof -
  have "rows div 3 \<le> rows" by (simp add: word_le_nat_alt unat_div)
  then show ?thesis by (simp add: unat_sub unat_div)
qed

lemma unat_quarter: "unat ((cols::u32) div 4) = unat cols div 4"
  by (simp add: unat_div)

lemma unat_rest_quarter: "unat ((cols::u32) - cols div 4) = unat cols - unat cols div 4"
proof -
  have "cols div 4 \<le> cols" by (simp add: word_le_nat_alt unat_div)
  then show ?thesis by (simp add: unat_sub unat_div)
qed

lemma card_inCentral:
  "card {(r, c). inCentral R C r c} = (R - 2 * (R div 3)) * (C - 2 * (C div 4))"
proof -
  have "{(r, c). inCentral R C r c} = {R div 3 ..< R - R div 3} \<times> {C div 4 ..< C - C div 4}"
    by (auto simp: inCentral_def)
  moreover have "R - R div 3 - R div 3 = R - 2 * (R div 3)" "C - C div 4 - C div 4 = C - 2 * (C div 4)"
    by simp_all
  ultimately show ?thesis by (simp add: card_cartesian_product)
qed

text \<open>
  \<^bold>\<open>C3\<close> (amended). When \<^verbatim>\<open>computeWeights(rows, cols)\<close> takes the central-window fallback
  (the windows left a sum of zero) on a grid whose cell count fits 32 bits, it has a
  result; the cells it sets to 1 are exactly those of row \<open>rows div 3\<close> up to but excluding
  \<open>rows - rows div 3\<close> and column \<open>cols div 4\<close> up to but excluding \<open>cols - cols div 4\<close>,
  every other cell keeps what the windows left, and the sum is the number of cells set.
\<close>

theorem computeWeights_central:
  assumes fits: "unat rows * unat cols < 2 ^ 32"
    and win: "windowWeights useWin region wins rows cols = Some g0"
    and zero: "wg_sum g0 = 0"
  shows "\<exists>g. computeWeights useWin region wins rows cols = Some g \<and>
           length (wg_w g) = unat rows * unat cols \<and>
           unat (wg_sum g) = card {(r, c). inCentral (unat rows) (unat cols) r c} \<and>
           (\<forall>r < unat rows. \<forall>c < unat cols.
              wg_w g ! (r * unat cols + c) =
                (if inCentral (unat rows) (unat cols) r c then 1
                 else wg_w g0 ! (r * unat cols + c)))"
proof -
  define R where "R = unat rows"
  define C where "C = unat cols"
  define rs where "rs = [R div 3 ..< R - R div 3]"
  define cs where "cs = [C div 4 ..< C - C div 4]"
  have len0: "length (wg_w g0) = R * C"
    using windowWeights_length[OF win] fits by (simp add: R_def C_def unat_mult_lem[THEN iffD1])
  have bound: "\<forall>r \<in> set rs. \<forall>c \<in> set cs. r * unat cols + c < length (wg_w g0)"
  proof (intro ballI)
    fix r c assume "r \<in> set rs" "c \<in> set cs"
    then have "r < R" "c < C" by (auto simp: rs_def cs_def)
    then show "r * unat cols + c < length (wg_w g0)"
      using cell_index_less[of r R c C] by (simp add: len0 C_def)
  qed
  have small: "length (wg_w g0) < 2 ^ 32" using fits by (simp add: len0 R_def C_def)
  from central_rows[OF bound small] obtain g where g:
    "foldM (\<lambda>r. foldM (centralCell cols r) cs) rs g0 = Some g"
    "length (wg_w g) = length (wg_w g0)"
    "wg_sum g = wg_sum g0 + of_nat (length rs * length cs)"
    "\<forall>j < length (wg_w g0). wg_w g ! j =
        (if \<exists>r \<in> set rs. \<exists>c \<in> set cs. j = r * unat cols + c then 1 else wg_w g0 ! j)"
    by blast
  have cw: "computeWeights useWin region wins rows cols = Some g"
    using win zero g(1)
    by (simp add: computeWeights_def centralWindow_def rs_def cs_def R_def C_def
          unat_third unat_rest_third unat_quarter unat_rest_quarter)
  have "length rs * length cs \<le> R * C"
    by (intro mult_le_mono) (simp_all add: rs_def cs_def)
  then have "length rs * length cs < 2 ^ 32" using fits by (simp add: R_def C_def)
  then have lt: "length rs * length cs < 2 ^ LENGTH(32)" by simp
  have "wg_sum g = of_nat (length rs * length cs)" using g(3) zero by simp
  then have "unat (wg_sum g) = length rs * length cs"
    by (simp only: unat_of_nat mod_less[OF lt])
  also have "\<dots> = (R - 2 * (R div 3)) * (C - 2 * (C div 4))"
  proof -
    have "length rs = R - 2 * (R div 3)" "length cs = C - 2 * (C div 4)"
      by (simp_all add: rs_def cs_def)
    then show ?thesis by (simp only:)
  qed
  finally have sum: "unat (wg_sum g) = card {(r, c). inCentral R C r c}"
    by (simp add: card_inCentral)
  have cells: "wg_w g ! (r * unat cols + c) =
                (if inCentral R C r c then 1 else wg_w g0 ! (r * unat cols + c))"
    if "r < R" "c < C" for r c
  proof -
    have j: "r * unat cols + c < length (wg_w g0)"
      using cell_index_less[OF that] by (simp add: len0 C_def)
    have "(\<exists>r' \<in> set rs. \<exists>c' \<in> set cs. r * unat cols + c = r' * unat cols + c') \<longleftrightarrow>
          r \<in> set rs \<and> c \<in> set cs"
    proof
      assume "\<exists>r' \<in> set rs. \<exists>c' \<in> set cs. r * unat cols + c = r' * unat cols + c'"
      then obtain r' c' where rc: "r' \<in> set rs" "c' \<in> set cs"
        "r * unat cols + c = r' * unat cols + c'" by blast
      from rc(2) have "c' < C" by (auto simp: cs_def)
      from cell_index_unique[OF that(2) this rc(3)[unfolded C_def[symmetric]]] rc(1,2)
      show "r \<in> set rs \<and> c \<in> set cs" by simp
    qed blast
    also have "\<dots> \<longleftrightarrow> inCentral R C r c"
      by (auto simp: rs_def cs_def inCentral_def)
    finally show ?thesis using g(4) j by simp
  qed
  show ?thesis
    using cw g(2) len0 sum cells by (auto simp: R_def C_def)
qed

theorem computeWeights_central_witness:
  "unat (4::u32) * unat (4::u32) < 2 ^ 32 \<and>
   windowWeights False ex_region [] 4 4 =
     Some \<lparr>wg_rows = 4, wg_cols = 4, wg_sum = 0, wg_w = replicate 16 0\<rparr> \<and>
   (\<exists>g. computeWeights False ex_region [] 4 4 = Some g \<and> length (wg_w g) = 16 \<and>
        unat (wg_sum g) = 4 \<and> wg_w g ! 5 = 1 \<and> wg_w g ! 4 = 0)"
proof -
  have fits: "unat (4::u32) * unat (4::u32) < 2 ^ 32" by simp
  have win: "windowWeights False ex_region [] 4 4 =
     Some \<lparr>wg_rows = 4, wg_cols = 4, wg_sum = 0, wg_w = replicate 16 0\<rparr>"
    by (simp add: windowWeights_def)
  have zero: "wg_sum \<lparr>wg_rows = 4, wg_cols = 4, wg_sum = 0, wg_w = replicate 16 (0::u16)\<rparr> = 0" by simp
  from computeWeights_central[OF fits win zero] obtain g where g:
    "computeWeights False ex_region [] 4 4 = Some g" "length (wg_w g) = unat (4::u32) * unat (4::u32)"
    "unat (wg_sum g) = card {(r, c). inCentral (unat (4::u32)) (unat (4::u32)) r c}"
    "\<forall>r < unat (4::u32). \<forall>c < unat (4::u32).
              wg_w g ! (r * unat (4::u32) + c) =
                (if inCentral (unat (4::u32)) (unat (4::u32)) r c then 1
                 else wg_w \<lparr>wg_rows = 4, wg_cols = 4, wg_sum = 0, wg_w = replicate 16 (0::u16)\<rparr> ! (r * unat (4::u32) + c))"
    by blast
  have "wg_w g ! 5 = 1" using g(4)[rule_format, of 1 1] by (simp add: inCentral_def)
  moreover have "wg_w g ! 4 = 0" using g(4)[rule_format, of 1 0] by (simp add: inCentral_def)
  moreover have "unat (wg_sum g) = 4" using g(3) by (simp add: card_inCentral)
  ultimately show ?thesis using fits win g(1,2) by simp
qed

text \<open>
  As first stated the claim fails: on a 4 by 4 grid the cell of row 1 and column 1 is set
  to 1, and row 1 lies below the ceiling of 4/3.
\<close>

theorem central_window_counterexample:
  "computeWeights False ex_region [] 4 4 =
     Some \<lparr>wg_rows = 4, wg_cols = 4, wg_sum = 4,
           wg_w = [0,0,0,0, 0,1,1,0, 0,1,1,0, 0,0,0,0]\<rparr> \<and>
   [0,0,0,0, 0,1,1,0, 0,1,1,0, 0,0,0,0::u16] ! (1 * 4 + 1) = 1 \<and>
   \<not> spec_centralWindow 4 4 1 1"
  by code_simp

end
